theory Spec2Isabelle
  imports Main "HOL-Library.Sublist"
begin

text \<open>
  The plugin drives a running cmus through its control socket. \<open>CmusPlayer\<close> owns
  the socket and turns each operation into a line of text; the two backend classes
  \<open>OVOSCmusService\<close> and \<open>CmusOCPAudioService\<close> sit on top of it, and
  \<open>load_service\<close> builds backends from a configuration. The functions below follow
  the Python source one by one. A method becomes a function from the object and the
  world to a result and the new object and world, and an exception is a result
  \<open>Inl\<close>.
\<close>

section \<open>Python values used by the plugin\<close>

text \<open>
  A Python \<open>str\<close> is a sequence of Unicode code points, a \<open>bytes\<close> object a sequence
  of octets. Literals of the source are written with \<open>lit\<close>.
\<close>

type_synonym pystr = "nat list"
type_synonym bytes = "char list"

definition lit :: "string \<Rightarrow> pystr" where
  "lit s = map of_char s"

datatype error =
    KeyError pystr
  | RuntimeError pystr
  | UnicodeEncodeError
  | UnicodeDecodeError
  | OSError

text \<open>\<open>str.encode("ascii")\<close>: every code point must be below 128.\<close>

definition encode_ascii :: "pystr \<Rightarrow> error + bytes" where
  "encode_ascii s =
     (if \<forall>c \<in> set s. c < 128 then Inr (map char_of s) else Inl UnicodeEncodeError)"

text \<open>
  \<open>bytes.decode('utf-8')\<close> in strict mode: shortest forms only, no surrogates,
  nothing above U+10FFFF.
\<close>

definition cont :: "nat \<Rightarrow> bool" where
  "cont b = (128 \<le> b \<and> b < 192)"

fun utf8 :: "nat list \<Rightarrow> error + pystr" where
  "utf8 [] = Inr []"
| "utf8 (a # bs) =
     (if a < 128 then map_sum id ((#) a) (utf8 bs)
      else if 194 \<le> a \<and> a < 224 then
        (case bs of
           b # r \<Rightarrow>
             if cont b then map_sum id ((#) ((a - 192) * 64 + (b - 128))) (utf8 r)
             else Inl UnicodeDecodeError
         | _ \<Rightarrow> Inl UnicodeDecodeError)
      else if 224 \<le> a \<and> a < 240 then
        (case bs of
           b # c # r \<Rightarrow>
             if cont b \<and> cont c \<and> (a = 224 \<longrightarrow> 160 \<le> b) \<and> (a = 237 \<longrightarrow> b < 160)
             then map_sum id ((#) ((a - 224) * 4096 + (b - 128) * 64 + (c - 128))) (utf8 r)
             else Inl UnicodeDecodeError
         | _ \<Rightarrow> Inl UnicodeDecodeError)
      else if 240 \<le> a \<and> a < 245 then
        (case bs of
           b # c # d # r \<Rightarrow>
             if cont b \<and> cont c \<and> cont d \<and> (a = 240 \<longrightarrow> 144 \<le> b) \<and> (a = 244 \<longrightarrow> b < 144)
             then map_sum id
                    ((#) ((a - 240) * 262144 + (b - 128) * 4096 + (c - 128) * 64 + (d - 128)))
                    (utf8 r)
             else Inl UnicodeDecodeError
         | _ \<Rightarrow> Inl UnicodeDecodeError)
      else Inl UnicodeDecodeError)"

definition decode_utf8 :: "bytes \<Rightarrow> error + pystr" where
  "decode_utf8 b = utf8 (map of_char b)"

text \<open>The operator \<open>needle in haystack\<close> on two strings: a substring test.\<close>

fun py_in :: "pystr \<Rightarrow> pystr \<Rightarrow> bool" where
  "py_in n [] = (n = [])"
| "py_in n (h # t) = (take (length n) (h # t) = n \<or> py_in n t)"

text \<open>\<open>posixpath.join(a, *p)\<close>.\<close>

fun os_path_join :: "pystr \<Rightarrow> pystr list \<Rightarrow> pystr" where
  "os_path_join path [] = path"
| "os_path_join path (b # p) =
     (if b \<noteq> [] \<and> hd b = 47 then os_path_join b p
      else if path = [] \<or> last path = 47 then os_path_join (path @ b) p
      else os_path_join (path @ [47] @ b) p)"


text \<open>
  The values that reach a format string or sit in a configuration entry. \<open>truthy\<close> is
  the truth value Python gives them in a condition.
\<close>

datatype pyval = PNone | PBool bool | PInt int | PStr pystr | PList "pyval list"

fun truthy :: "pyval \<Rightarrow> bool" where
  "truthy PNone = False"
| "truthy (PBool b) = b"
| "truthy (PInt i) = (i \<noteq> 0)"
| "truthy (PStr s) = (s \<noteq> [])"
| "truthy (PList xs) = (xs \<noteq> [])"

fun digits :: "nat \<Rightarrow> pystr" where
  "digits n = (if n < 10 then [48 + n] else digits (n div 10) @ [48 + n mod 10])"

definition str_int :: "int \<Rightarrow> pystr" where
  "str_int i = (if i < 0 then 45 # digits (nat (- i)) else digits (nat i))"

definition hex_digit :: "nat \<Rightarrow> nat" where
  "hex_digit d = (if d < 10 then 48 + d else 87 + d)"

fun hex :: "nat \<Rightarrow> nat \<Rightarrow> pystr" where
  "hex 0 v = []"
| "hex (Suc k) v = hex k (v div 16) @ [hex_digit (v mod 16)]"

text \<open>
  \<open>repr\<close> of a string. The quote is \<open>"\<close> (34) when the string has a \<open>'\<close> (39) and
  no \<open>"\<close>, and \<open>'\<close> otherwise. 92 is the backslash. \<open>pr\<close> says which code points
  from 128 on are printable.
\<close>

definition repr_quote :: "pystr \<Rightarrow> nat" where
  "repr_quote s = (if 39 \<in> set s \<and> 34 \<notin> set s then 34 else 39)"

definition repr_char :: "(nat \<Rightarrow> bool) \<Rightarrow> nat \<Rightarrow> nat \<Rightarrow> pystr" where
  "repr_char pr quote ch =
     (if ch = quote \<or> ch = 92 then [92, ch]
      else if ch = 9 then [92, 116]
      else if ch = 10 then [92, 110]
      else if ch = 13 then [92, 114]
      else if ch < 32 \<or> ch = 127 then [92, 120] @ hex 2 ch
      else if ch < 127 then [ch]
      else if pr ch then [ch]
      else if ch < 256 then [92, 120] @ hex 2 ch
      else if ch < 65536 then [92, 117] @ hex 4 ch
      else [92, 85] @ hex 8 ch)"

definition repr_str :: "(nat \<Rightarrow> bool) \<Rightarrow> pystr \<Rightarrow> pystr" where
  "repr_str pr s =
     repr_quote s # concat (map (repr_char pr (repr_quote s)) s) @ [repr_quote s]"

text \<open>\<open>sep.join(xs)\<close>.\<close>

fun str_join :: "pystr \<Rightarrow> pystr list \<Rightarrow> pystr" where
  "str_join sep [] = []"
| "str_join sep [x] = x"
| "str_join sep (x # y # ys) = x @ sep @ str_join sep (y # ys)"

fun py_repr :: "(nat \<Rightarrow> bool) \<Rightarrow> pyval \<Rightarrow> pystr" where
  "py_repr pr PNone = lit ''None''"
| "py_repr pr (PBool b) = (if b then lit ''True'' else lit ''False'')"
| "py_repr pr (PInt i) = str_int i"
| "py_repr pr (PStr s) = repr_str pr s"
| "py_repr pr (PList xs) = lit ''['' @ str_join (lit '', '') (map (py_repr pr) xs) @ lit '']''"

text \<open>\<open>str(v)\<close>, which is also what a replacement field \<open>{v}\<close> of an f-string gives.\<close>

definition py_str :: "(nat \<Rightarrow> bool) \<Rightarrow> pyval \<Rightarrow> pystr" where
  "py_str pr v = (case v of PStr s \<Rightarrow> s | _ \<Rightarrow> py_repr pr v)"

text \<open>
  A \<open>dict\<close> is kept as the list of its items in insertion order; its keys are distinct.
  \<open>d[k]\<close> raises \<open>KeyError\<close> on a missing key, \<open>d.get(k, v)\<close> returns \<open>v\<close> there.
\<close>

definition dict_item :: "(pystr \<times> 'v) list \<Rightarrow> pystr \<Rightarrow> error + 'v" where
  "dict_item d k = (case map_of d k of None \<Rightarrow> Inl (KeyError k) | Some v \<Rightarrow> Inr v)"

definition dict_get :: "(pystr \<times> 'v) list \<Rightarrow> pystr \<Rightarrow> 'v \<Rightarrow> 'v" where
  "dict_get d k v = (case map_of d k of None \<Rightarrow> v | Some v' \<Rightarrow> v')"

section \<open>The operating system as seen by the plugin\<close>

text \<open>
  Every call on a socket is recorded in a trace. \<open>Connect\<close> also records whether the
  connection was established. \<open>Send\<close> records the bytes handed to \<open>send\<close>; the
  source does not look at the number of bytes \<open>send\<close> reports as taken, and neither
  does the model.
\<close>

datatype event =
    Create nat
  | Connect nat pystr bool
  | Send nat bytes
  | Recv nat nat
  | Hook string

text \<open>
  \<open>environ\<close> is \<open>os.environ\<close>, \<open>path_exists\<close> is \<open>os.path.exists\<close>. What the
  peer and the kernel do is any function of the calls made so far: whether a
  \<open>connect\<close> or a \<open>send\<close> succeeds, and which bytes are waiting at a \<open>recv\<close>
  (\<open>None\<close>: the call raises \<open>OSError\<close>). Blocking calls are taken to return.
  \<open>unicode_printable\<close> is \<open>str.isprintable\<close> on the code points from 128 on.
\<close>

record world =
  environ :: "pystr \<rightharpoonup> pystr"
  path_exists :: "pystr \<Rightarrow> bool"
  os_connect :: "event list \<Rightarrow> nat \<Rightarrow> pystr \<Rightarrow> bool"
  os_send :: "event list \<Rightarrow> nat \<Rightarrow> bytes \<Rightarrow> bool"
  os_recv :: "event list \<Rightarrow> nat \<Rightarrow> bytes option"
  unicode_printable :: "nat \<Rightarrow> bool"
  next_socket :: nat
  trace :: "event list"

text \<open>The attribute \<open>_socket\<close> of a \<open>CmusPlayer\<close>; \<open>None\<close> while \<open>hasattr\<close> is false.\<close>

record player =
  socket_attr :: "nat option"

type_synonym ('s, 'a) exn = "'s \<times> world \<Rightarrow> (error + 'a) \<times> ('s \<times> world)"

definition return :: "'a \<Rightarrow> ('s, 'a) exn" where
  "return a = (\<lambda>st. (Inr a, st))"

definition raise :: "error \<Rightarrow> ('s, 'a) exn" where
  "raise e = (\<lambda>st. (Inl e, st))"

definition then_do :: "('s, 'a) exn \<Rightarrow> ('a \<Rightarrow> ('s, 'b) exn) \<Rightarrow> ('s, 'b) exn" where
  "then_do m f = (\<lambda>st. case m st of (Inl e, st') \<Rightarrow> (Inl e, st') | (Inr a, st') \<Rightarrow> f a st')"

definition lift :: "error + 'a \<Rightarrow> ('s, 'a) exn" where
  "lift r = (\<lambda>st. (r, st))"

definition log :: "event \<Rightarrow> world \<Rightarrow> world" where
  "log e w = w\<lparr>trace := trace w @ [e]\<rparr>"

definition environ_get :: "pystr \<Rightarrow> ('s, pystr) exn" where
  "environ_get k = (\<lambda>(s, w). case environ w k of
      None \<Rightarrow> (Inl (KeyError k), (s, w))
    | Some v \<Rightarrow> (Inr v, (s, w)))"

definition os_path_exists :: "pystr \<Rightarrow> ('s, bool) exn" where
  "os_path_exists f = (\<lambda>(s, w). (Inr (path_exists w f), (s, w)))"

definition socket_socket :: "('s, nat) exn" where
  "socket_socket = (\<lambda>(s, w).
     (Inr (next_socket w), (s, log (Create (next_socket w)) (w\<lparr>next_socket := Suc (next_socket w)\<rparr>))))"

definition sock_connect :: "nat \<Rightarrow> pystr \<Rightarrow> ('s, unit) exn" where
  "sock_connect fd path = (\<lambda>(s, w).
     if os_connect w (trace w) fd path
     then (Inr (), (s, log (Connect fd path True) w))
     else (Inl OSError, (s, log (Connect fd path False) w)))"

definition sock_send :: "nat \<Rightarrow> bytes \<Rightarrow> ('s, unit) exn" where
  "sock_send fd data = (\<lambda>(s, w).
     if os_send w (trace w) fd data
     then (Inr (), (s, log (Send fd data) w))
     else (Inl OSError, (s, log (Send fd data) w)))"

definition sock_recv :: "nat \<Rightarrow> nat \<Rightarrow> ('s, bytes) exn" where
  "sock_recv fd bufsize = (\<lambda>(s, w).
     case os_recv w (trace w) fd of
       None \<Rightarrow> (Inl OSError, (s, log (Recv fd bufsize) w))
     | Some b \<Rightarrow> (Inr (take bufsize b), (s, log (Recv fd bufsize) w)))"

section \<open>CmusPlayer: the socket\<close>

definition create_socket :: "(player, nat) exn" where
  "create_socket = socket_socket"

fun first_existing :: "pystr list \<Rightarrow> ('s, pystr) exn" where
  "first_existing [] =
     raise (RuntimeError (lit ''cmus is running, but its socket is not found''))"
| "first_existing (f # fs) =
     then_do (os_path_exists f) (\<lambda>b. if b then return f else first_existing fs)"

definition socket_path :: "(player, pystr) exn" where
  "socket_path =
     then_do (environ_get (lit ''XDG_RUNTIME_DIR'')) (\<lambda>x.
     then_do (environ_get (lit ''HOME'')) (\<lambda>h.
       first_existing
         [os_path_join x [lit ''cmus-socket''],
          os_path_join h [lit ''.cmus'', lit ''socket'']]))"

definition connect_socket :: "nat \<Rightarrow> (player, unit) exn" where
  "connect_socket s = then_do socket_path (\<lambda>path. sock_connect s path)"

definition set_socket :: "nat \<Rightarrow> (player, unit) exn" where
  "set_socket s = (\<lambda>(p, w). (Inr (), (p\<lparr>socket_attr := Some s\<rparr>, w)))"

definition get_open_socket :: "(player, nat) exn" where
  "get_open_socket = (\<lambda>(p, w).
     case socket_attr p of
       Some s \<Rightarrow> (Inr s, (p, w))
     | None \<Rightarrow>
         then_do create_socket (\<lambda>s.
         then_do (connect_socket s) (\<lambda>_.
         then_do (set_socket s) (\<lambda>_.
           return s))) (p, w))"

definition send_socket_command :: "pystr \<Rightarrow> (player, pystr) exn" where
  "send_socket_command command =
     then_do get_open_socket (\<lambda>s.
     then_do (lift (encode_ascii (command @ lit ''\<newline>''))) (\<lambda>data.
     then_do (sock_send s data) (\<lambda>_.
     then_do (sock_recv s 2048) (\<lambda>b.
       lift (decode_utf8 b)))))"

section \<open>CmusPlayer: the player\<close>

definition is_stopped :: "(player, bool) exn" where
  "is_stopped =
     then_do (send_socket_command (lit ''status'')) (\<lambda>r. return (py_in (lit ''status stopped'') r))"

definition is_paused :: "(player, bool) exn" where
  "is_paused =
     then_do (send_socket_command (lit ''status'')) (\<lambda>r. return (py_in (lit ''status paused'') r))"

definition is_playing :: "(player, bool) exn" where
  "is_playing =
     then_do (send_socket_command (lit ''status'')) (\<lambda>r. return (py_in (lit ''status playing'') r))"

definition discard :: "('s, 'a) exn \<Rightarrow> ('s, unit) exn" where
  "discard m = then_do m (\<lambda>_. return ())"

definition play :: "(player, unit) exn" where
  "play = discard (send_socket_command (lit ''player-play''))"

definition pause :: "(player, unit) exn" where
  "pause = discard (send_socket_command (lit ''player-pause''))"

definition unpause :: "(player, unit) exn" where
  "unpause = pause"

definition stop :: "(player, unit) exn" where
  "stop = discard (send_socket_command (lit ''player-stop''))"

definition toggle_pause :: "(player, unit) exn" where
  "toggle_pause = then_do is_paused (\<lambda>b. if b then unpause else pause)"

definition play_pause :: "(player, unit) exn" where
  "play_pause = then_do is_stopped (\<lambda>b. if b then play else toggle_pause)"


definition format_field :: "pyval \<Rightarrow> ('s, pystr) exn" where
  "format_field v = (\<lambda>(s, w). (Inr (py_str (unicode_printable w) v), (s, w)))"

definition add_path :: "pyval \<Rightarrow> (player, unit) exn" where
  "add_path path =
     then_do (format_field path) (\<lambda>t. discard (send_socket_command (lit ''add '' @ t)))"

text \<open>
  A caller that issues one command after another, going on after an exception.
\<close>

fun run_commands :: "pystr list \<Rightarrow> player \<times> world \<Rightarrow> player \<times> world" where
  "run_commands [] st = st"
| "run_commands (c # cs) st = run_commands cs (snd (send_socket_command c st))"

section \<open>The backends\<close>

text \<open>
  \<open>CmusOCPAudioService\<close> has the fields of \<open>service\<close>; \<open>OVOSCmusService\<close> has a name
  as well. The message bus and the base classes are not part of the plugin: the calls
  \<open>ocp_start\<close>, \<open>ocp_stop\<close>, \<open>ocp_pause\<close> and \<open>ocp_resume\<close> of the base class are
  recorded in the trace as \<open>Hook\<close> and are taken to return. \<open>set_track_position\<close>
  computes its argument in binary floating point and prints it with \<open>str\<close>; numbers
  of that kind are not among the values above, so it has no counterpart here.
\<close>

type_synonym entry = "(pystr \<times> pyval) list"

record service =
  config :: entry
  index :: int
  tracks :: "pyval list"
  player :: player

record ovos_service = service +
  name :: pystr

definition in_player :: "(player, 'a) exn \<Rightarrow> ('z service_scheme, 'a) exn" where
  "in_player m = (\<lambda>(s, w). case m (player s, w) of (r, (p', w')) \<Rightarrow> (r, (s\<lparr>player := p'\<rparr>, w')))"

definition hook :: "string \<Rightarrow> ('s, unit) exn" where
  "hook h = (\<lambda>(s, w). (Inr (), (s, log (Hook h) w)))"

definition get_tracks :: "('z service_scheme, pyval list) exn" where
  "get_tracks = (\<lambda>(s, w). (Inr (tracks s), (s, w)))"

definition OVOSCmusService :: "entry \<Rightarrow> pystr \<Rightarrow> ovos_service" where
  "OVOSCmusService cfg nm =
     \<lparr>config = cfg, index = 0, tracks = [], player = \<lparr>socket_attr = None\<rparr>, name = nm\<rparr>"

definition CmusOCPAudioService :: "entry \<Rightarrow> service" where
  "CmusOCPAudioService cfg =
     \<lparr>config = cfg, index = 0, tracks = [], player = \<lparr>socket_attr = None\<rparr>\<rparr>"

definition clear_list :: "ovos_service \<Rightarrow> ovos_service" where
  "clear_list s = s\<lparr>index := 0, tracks := []\<rparr>"

definition add_list :: "pyval list \<Rightarrow> ovos_service \<Rightarrow> ovos_service" where
  "add_list ts s = s\<lparr>tracks := tracks s @ ts\<rparr>"

definition OVOSCmusService_play :: "(ovos_service, unit) exn" where
  "OVOSCmusService_play =
     then_do (hook ''ocp_start'') (\<lambda>_.
     then_do get_tracks (\<lambda>ts.
     then_do (in_player (add_path (PList ts))) (\<lambda>_.
       in_player play)))"

definition CmusOCPAudioService_play :: "(service, unit) exn" where
  "CmusOCPAudioService_play =
     then_do get_tracks (\<lambda>ts.
     then_do (in_player (add_path (PList ts))) (\<lambda>_.
       in_player play))"

definition OVOSCmusService_stop :: "(ovos_service, bool) exn" where
  "OVOSCmusService_stop =
     then_do (in_player is_playing) (\<lambda>b.
       if b then
         then_do (in_player stop) (\<lambda>_.
         then_do (hook ''ocp_stop'') (\<lambda>_.
           return True))
       else return False)"

definition CmusOCPAudioService_stop :: "(service, bool) exn" where
  "CmusOCPAudioService_stop =
     then_do (in_player is_playing) (\<lambda>b.
       if b then then_do (in_player stop) (\<lambda>_. return True)
       else return False)"

section \<open>The factory\<close>

text \<open>
  \<open>base_config\<close> maps a key to a dictionary of backend entries; only the key
  \<open>backends\<close> is read. \<open>select_services\<close> is the list comprehension over the keys of
  \<open>backends\<close>.
\<close>

type_synonym backends = "(pystr \<times> entry) list"

fun select_services :: "backends \<Rightarrow> pystr list \<Rightarrow> error + (pystr \<times> entry) list" where
  "select_services backends [] = Inr []"
| "select_services backends (b # bs) =
     (case dict_item backends b of
        Inl e \<Rightarrow> Inl e
      | Inr ent \<Rightarrow>
          (case dict_item ent (lit ''type'') of
             Inl e \<Rightarrow> Inl e
           | Inr t \<Rightarrow>
               if t \<in> set [PStr (lit ''cmus''), PStr (lit ''ovos_cmus'')] \<and>
                  truthy (dict_get ent (lit ''active'') (PBool False))
               then map_sum id ((#) (b, ent)) (select_services backends bs)
               else select_services backends bs))"

definition load_service :: "(pystr \<times> backends) list \<Rightarrow> error + ovos_service list" where
  "load_service base_config =
     (let backends = dict_get base_config (lit ''backends'') []
      in map_sum id (map (\<lambda>s. OVOSCmusService (snd s) (fst s)))
           (select_services backends (map fst backends)))"


section \<open>Observations on a trace\<close>

text \<open>
  \<open>commands_sent\<close> lists the payloads handed to \<open>send\<close>, in order; \<open>issued w w'\<close>
  are those handed over between the worlds \<open>w\<close> and \<open>w'\<close>. \<open>connections\<close> keeps the
  connections that were established.
\<close>

fun commands_sent :: "event list \<Rightarrow> bytes list" where
  "commands_sent [] = []"
| "commands_sent (Send fd d # es) = d # commands_sent es"
| "commands_sent (e # es) = commands_sent es"

definition issued :: "world \<Rightarrow> world \<Rightarrow> bytes list" where
  "issued w w' = commands_sent (drop (length (trace w)) (trace w'))"

fun established :: "event \<Rightarrow> bool" where
  "established (Connect fd path ok) = ok"
| "established e = False"

definition connections :: "event list \<Rightarrow> event list" where
  "connections es = filter established es"

fun on_socket :: "nat \<Rightarrow> event \<Rightarrow> bool" where
  "on_socket s (Send fd d) = (fd = s)"
| "on_socket s (Recv fd n) = (fd = s)"
| "on_socket s e = False"

text \<open>
  The entries the factory is meant to keep: the type is one of the two identifiers and
  there is an active flag that is true.
\<close>

definition recognized :: "entry \<Rightarrow> bool" where
  "recognized ent =
     ((map_of ent (lit ''type'') = Some (PStr (lit ''cmus'')) \<or>
       map_of ent (lit ''type'') = Some (PStr (lit ''ovos_cmus''))) \<and>
      (case map_of ent (lit ''active'') of None \<Rightarrow> False | Some a \<Rightarrow> truthy a))"

text \<open>
  At most one connection is held: none was established while the player has no socket,
  and the only one established is that of the cached socket otherwise.
\<close>

definition held :: "player \<times> world \<Rightarrow> bool" where
  "held st =
     (case socket_attr (fst st) of
        None \<Rightarrow> connections (trace (snd st)) = []
      | Some s \<Rightarrow> \<exists>path. connections (trace (snd st)) = [Connect s path True])"

section \<open>A sample environment\<close>

text \<open>
  A machine on which the file \<open>sockfile\<close> is the only one that exists, every call on a
  socket succeeds and the peer answers every command with \<open>reply\<close>.
\<close>

definition sample_world :: "pystr \<Rightarrow> bytes \<Rightarrow> world" where
  "sample_world sockfile reply =
     \<lparr>environ = [lit ''XDG_RUNTIME_DIR'' \<mapsto> lit ''/run/user/1000'', lit ''HOME'' \<mapsto> lit ''/home/u''],
      path_exists = (\<lambda>f. f = sockfile),
      os_connect = (\<lambda>_ _ _. True),
      os_send = (\<lambda>_ _ _. True),
      os_recv = (\<lambda>_ _. Some reply),
      unicode_printable = (\<lambda>c. 160 < c \<and> c < 256 \<and> c \<noteq> 173),
      next_socket = 0,
      trace = []\<rparr>"

definition fresh_player :: player where
  "fresh_player = \<lparr>socket_attr = None\<rparr>"


section \<open>Basic facts\<close>

lemma lit_newline: "lit ''\<newline>'' = [10]"
  by (simp add: lit_def)

lemma char_of_newline: "char_of (10::nat) = CHR ''\<newline>''"
  by code_simp

lemma char_of_lit: "map char_of (lit s) = s"
  by (simp add: lit_def comp_def)

lemma py_in_sublist: "py_in n h = sublist n h"
proof (induction h)
  case Nil
  then show ?case by simp
next
  case (Cons a h)
  have "prefix n (a # h) \<longleftrightarrow> take (length n) (a # h) = n"
    by (metis append_eq_conv_conj prefix_def append_take_drop_id)
  with Cons show ?case by (simp add: sublist_Cons_right)
qed

lemma then_do_alt:
  "then_do m f st = (case fst (m st) of Inl e \<Rightarrow> (Inl e, snd (m st)) | Inr a \<Rightarrow> f a (snd (m st)))"
  by (simp add: then_do_def split: prod.splits sum.splits)

lemma commands_sent_append: "commands_sent (xs @ ys) = commands_sent xs @ commands_sent ys"
  by (induction xs rule: commands_sent.induct) simp_all

lemma issued_trans:
  assumes "prefix (trace w) (trace w1)" and "prefix (trace w1) (trace w2)"
  shows "issued w w2 = issued w w1 @ issued w1 w2"
proof -
  from assms obtain e1 e2 where "trace w1 = trace w @ e1" "trace w2 = trace w1 @ e2"
    by (auto simp: prefix_def)
  then show ?thesis by (simp add: issued_def commands_sent_append)
qed

lemma issued_refl: "issued w w = []"
  by (simp add: issued_def)

subsection \<open>Resolving and opening the socket\<close>

lemma first_existing_state: "snd (first_existing fs st) = st"
  by (induction fs)
     (auto simp add: raise_def then_do_def os_path_exists_def return_def split: prod.splits)

lemma first_existing_result:
  "fst (first_existing fs (s, w)) =
     (case filter (path_exists w) fs of
        [] \<Rightarrow> Inl (RuntimeError (lit ''cmus is running, but its socket is not found''))
      | f # _ \<Rightarrow> Inr f)"
  by (induction fs)
     (simp_all add: raise_def then_do_def os_path_exists_def return_def split: prod.splits)

lemma socket_path_unfold:
  "socket_path (p, w) =
     (case environ w (lit ''XDG_RUNTIME_DIR'') of
        None \<Rightarrow> (Inl (KeyError (lit ''XDG_RUNTIME_DIR'')), (p, w))
      | Some x \<Rightarrow>
          (case environ w (lit ''HOME'') of
             None \<Rightarrow> (Inl (KeyError (lit ''HOME'')), (p, w))
           | Some h \<Rightarrow>
               (fst (first_existing
                  [os_path_join x [lit ''cmus-socket''],
                   os_path_join h [lit ''.cmus'', lit ''socket'']] (p, w)), (p, w))))"
  unfolding socket_path_def then_do_alt environ_get_def
  by (simp add: prod_eq_iff first_existing_state del: first_existing.simps split: option.splits)

lemma socket_path_state: "snd (socket_path st) = st"
  by (cases st) (simp add: socket_path_unfold split: option.splits)

lemma get_open_socket_cached:
  "socket_attr p = Some s \<Longrightarrow> get_open_socket (p, w) = (Inr s, (p, w))"
  by (simp add: get_open_socket_def)

lemma get_open_socket_fresh:
  "socket_attr p = None \<Longrightarrow>
   get_open_socket (p, w) =
     (let n = next_socket w;
          w0 = w\<lparr>next_socket := Suc n, trace := trace w @ [Create n]\<rparr>
      in case fst (socket_path (p, w0)) of
           Inl e \<Rightarrow> (Inl e, (p, w0))
         | Inr path \<Rightarrow>
             if os_connect w (trace w @ [Create n]) n path
             then (Inr n, (p\<lparr>socket_attr := Some n\<rparr>,
                           w0\<lparr>trace := trace w @ [Create n, Connect n path True]\<rparr>))
             else (Inl OSError, (p, w0\<lparr>trace := trace w @ [Create n, Connect n path False]\<rparr>)))"
  unfolding get_open_socket_def then_do_alt create_socket_def socket_socket_def connect_socket_def
  by (simp add: socket_path_state sock_connect_def set_socket_def return_def log_def Let_def
        split: sum.splits)

lemma get_open_socket_trace:
  assumes "get_open_socket (p, w) = (r, (p1, w1))"
  shows "\<exists>ev. trace w1 = trace w @ ev \<and> commands_sent ev = [] \<and>
           (\<forall>s. r = Inr s \<longrightarrow> socket_attr p1 = Some s)"
proof (cases "socket_attr p")
  case None
  from assms show ?thesis
    unfolding get_open_socket_fresh[OF None] Let_def
    by (auto split: sum.splits if_splits)
next
  case (Some s)
  from assms Some show ?thesis
    by (auto simp: get_open_socket_cached)
qed

lemma sample_get_open_socket:
  "get_open_socket (fresh_player, sample_world (lit ''/run/user/1000/cmus-socket'') reply) =
     (Inr 0, (\<lparr>socket_attr = Some 0\<rparr>,
              (sample_world (lit ''/run/user/1000/cmus-socket'') reply)
                \<lparr>next_socket := 1,
                 trace := [Create 0, Connect 0 (lit ''/run/user/1000/cmus-socket'') True]\<rparr>))"
  by (simp add: get_open_socket_fresh fresh_player_def socket_path_unfold sample_world_def
      first_existing_result lit_def del: first_existing.simps)

subsection \<open>One exchange\<close>

lemma send_socket_command_unfold:
  "send_socket_command command (p, w) =
     (case get_open_socket (p, w) of
        (Inl e, st) \<Rightarrow> (Inl e, st)
      | (Inr s, (p1, w1)) \<Rightarrow>
          (case encode_ascii (command @ [10]) of
             Inl e \<Rightarrow> (Inl e, (p1, w1))
           | Inr data \<Rightarrow>
               if os_send w1 (trace w1) s data then
                 (case os_recv w1 (trace w1 @ [Send s data]) s of
                    None \<Rightarrow> (Inl OSError, (p1, w1\<lparr>trace := trace w1 @ [Send s data, Recv s 2048]\<rparr>))
                  | Some b \<Rightarrow>
                      (decode_utf8 (take 2048 b),
                       (p1, w1\<lparr>trace := trace w1 @ [Send s data, Recv s 2048]\<rparr>)))
               else (Inl OSError, (p1, w1\<lparr>trace := trace w1 @ [Send s data]\<rparr>))))"
  by (simp add: send_socket_command_def then_do_def lift_def sock_send_def sock_recv_def log_def
      lit_newline split: prod.splits sum.splits option.splits)

lemma send_socket_command_effect:
  assumes "send_socket_command c (p, w) = (r, (p1, w1))"
  shows "prefix (trace w) (trace w1)"
    and "prefix (issued w w1) [map char_of (c @ [10])]"
    and "r = Inr t \<Longrightarrow> issued w w1 = [map char_of (c @ [10])] \<and> socket_attr p1 \<noteq> None"
proof -
  obtain r0 p0 w0 where g: "get_open_socket (p, w) = (r0, (p0, w0))"
    by (metis prod.collapse)
  from get_open_socket_trace[OF g] obtain ev where
    ev: "trace w0 = trace w @ ev" "commands_sent ev = []"
        "\<forall>s. r0 = Inr s \<longrightarrow> socket_attr p0 = Some s"
    by blast
  from assms g ev show "prefix (trace w) (trace w1)"
    by (auto simp: send_socket_command_unfold encode_ascii_def prefix_def
        split: sum.splits if_splits option.splits)
  from assms g ev show "prefix (issued w w1) [map char_of (c @ [10])]"
    by (auto simp: send_socket_command_unfold encode_ascii_def issued_def commands_sent_append
        split: sum.splits if_splits option.splits)
  from assms g ev
  show "r = Inr t \<Longrightarrow> issued w w1 = [map char_of (c @ [10])] \<and> socket_attr p1 \<noteq> None"
    by (auto simp: send_socket_command_unfold encode_ascii_def issued_def commands_sent_append
        split: sum.splits if_splits option.splits)
qed

lemma send_socket_command_cached:
  assumes "send_socket_command c (p, w) = (r, (p1, w1))"
    and "socket_attr p = Some s" and "\<forall>x \<in> set c. x < 128"
  shows "issued w w1 = [map char_of (c @ [10])] \<and> p1 = p \<and>
         (\<forall>e \<in> set (drop (length (trace w)) (trace w1)). on_socket s e)"
  using assms
  by (auto simp: send_socket_command_unfold get_open_socket_cached encode_ascii_def issued_def
      split: sum.splits if_splits option.splits)

section \<open>The transport client\<close>

text \<open>
  C1, as amended. Take a call in which the socket is there (\<open>get_open_socket\<close>
  returns \<open>s\<close>). For a command whose code points are all below 128, when the \<open>send\<close>
  raises nothing, the \<open>recv\<close> delivers \<open>reply\<close> and the first 2048 bytes of it are
  valid UTF-8 for \<open>text\<close>: the bytes handed to \<open>send\<close> are the command, one byte for
  each character, followed by one newline; exactly one \<open>recv\<close> follows, with the bound
  2048; and \<open>text\<close> is returned as it is. For a command with a code point from 128 on,
  the encoding raises \<open>UnicodeEncodeError\<close> and nothing is sent or read.
\<close>

theorem send_socket_command_ascii:
  assumes "get_open_socket (p, w) = (Inr s, (p1, w1))"
  shows "((\<forall>c \<in> set command. c < 128) \<and>
          os_send w1 (trace w1) s (map char_of command @ ''\<newline>'') \<and>
          os_recv w1 (trace w1 @ [Send s (map char_of command @ ''\<newline>'')]) s = Some reply \<and>
          decode_utf8 (take 2048 reply) = Inr text \<longrightarrow>
          send_socket_command command (p, w) =
           (Inr text,
            (p1, w1\<lparr>trace := trace w1 @ [Send s (map char_of command @ ''\<newline>''), Recv s 2048]\<rparr>))) \<and>
         (\<not> (\<forall>c \<in> set command. c < 128) \<longrightarrow>
          send_socket_command command (p, w) = (Inl UnicodeEncodeError, (p1, w1)))"
proof (intro conjI impI)
  assume a: "(\<forall>c \<in> set command. c < 128) \<and>
          os_send w1 (trace w1) s (map char_of command @ ''\<newline>'') \<and>
          os_recv w1 (trace w1 @ [Send s (map char_of command @ ''\<newline>'')]) s = Some reply \<and>
          decode_utf8 (take 2048 reply) = Inr text"
  then have "encode_ascii (command @ [10]) = Inr (map char_of command @ ''\<newline>'')"
    by (simp add: encode_ascii_def char_of_newline)
  with a assms
  show "send_socket_command command (p, w) =
           (Inr text,
            (p1, w1\<lparr>trace := trace w1 @ [Send s (map char_of command @ ''\<newline>''), Recv s 2048]\<rparr>))"
    by (simp add: send_socket_command_unfold)
next
  assume "\<not> (\<forall>c \<in> set command. c < 128)"
  then have "encode_ascii (command @ [10]) = Inl UnicodeEncodeError"
    by (auto simp: encode_ascii_def)
  with assms show "send_socket_command command (p, w) = (Inl UnicodeEncodeError, (p1, w1))"
    by (simp add: send_socket_command_unfold)
qed

text \<open>
  The command \<open>status\<close> and the command \<open>\<eacute>\<close> on a machine where the socket is
  found in the runtime directory and the peer answers \<open>status playing\<close>.
\<close>

theorem send_socket_command_ascii_witness:
  "send_socket_command (lit ''status'')
     (fresh_player, sample_world (lit ''/run/user/1000/cmus-socket'') ''status playing'') =
     (Inr (lit ''status playing''),
      (\<lparr>socket_attr = Some 0\<rparr>,
       (sample_world (lit ''/run/user/1000/cmus-socket'') ''status playing'')
         \<lparr>next_socket := 1,
          trace := [Create 0, Connect 0 (lit ''/run/user/1000/cmus-socket'') True,
                    Send 0 ''status\<newline>'', Recv 0 2048]\<rparr>)) \<and>
   send_socket_command [233]
     (fresh_player, sample_world (lit ''/run/user/1000/cmus-socket'') ''status playing'') =
     (Inl UnicodeEncodeError,
      (\<lparr>socket_attr = Some 0\<rparr>,
       (sample_world (lit ''/run/user/1000/cmus-socket'') ''status playing'')
         \<lparr>next_socket := 1,
          trace := [Create 0, Connect 0 (lit ''/run/user/1000/cmus-socket'') True]\<rparr>))"
proof -
  have h1: "\<forall>c \<in> set (lit ''status''). c < 128"
    by (simp add: lit_def)
  have h5: "decode_utf8 (take 2048 ''status playing'') = Inr (lit ''status playing'')"
    by (simp add: decode_utf8_def lit_def)
  have h6: "\<not> (\<forall>c \<in> set [233::nat]. c < 128)" by simp
  from send_socket_command_ascii[OF sample_get_open_socket, THEN conjunct1, rule_format,
         of "lit ''status''" "''status playing''" "''status playing''" "lit ''status playing''"]
       send_socket_command_ascii[OF sample_get_open_socket, THEN conjunct2, rule_format, OF h6,
         of "''status playing''"]
       h1 h5
  show ?thesis
    by (simp add: sample_world_def char_of_lit)
qed

text \<open>
  The claim as it stands fails on a command with the letter U+00E9: the encoding to
  ASCII raises once the socket is open, nothing is sent and nothing is read.
\<close>

theorem send_socket_command_content_counterexample:
  "fst (send_socket_command [233]
     (fresh_player, sample_world (lit ''/run/user/1000/cmus-socket'') ''status playing'')) =
     Inl UnicodeEncodeError \<and>
   trace (snd (snd (send_socket_command [233]
     (fresh_player, sample_world (lit ''/run/user/1000/cmus-socket'') ''status playing'')))) =
     [Create 0, Connect 0 (lit ''/run/user/1000/cmus-socket'') True]"
  by (simp add: send_socket_command_unfold sample_get_open_socket encode_ascii_def)


section \<open>Socket path resolution\<close>

text \<open>
  With \<open>XDG_RUNTIME_DIR\<close> and \<open>HOME\<close> both set, \<open>socket_path\<close> tests the candidate
  \<open>c1\<close> under the runtime directory first and the candidate \<open>c2\<close> under the home
  directory second and returns the first that exists. A player without a socket that
  finds only \<open>c2\<close> calls \<open>connect\<close> once, with \<open>c2\<close>. When neither exists the
  \<open>RuntimeError\<close> of the source (the not-found error) is raised after the socket
  object was made, and \<open>connect\<close> is never called.
\<close>

theorem socket_path_resolution:
  assumes "environ w (lit ''XDG_RUNTIME_DIR'') = Some x"
    and "environ w (lit ''HOME'') = Some h"
    and "c1 = os_path_join x [lit ''cmus-socket'']"
    and "c2 = os_path_join h [lit ''.cmus'', lit ''socket'']"
    and "n = next_socket w"
  shows "socket_path (p, w) =
           (if path_exists w c1 then Inr c1
            else if path_exists w c2 then Inr c2
            else Inl (RuntimeError (lit ''cmus is running, but its socket is not found'')),
            (p, w)) \<and>
         (socket_attr p = None \<and> \<not> path_exists w c1 \<and> path_exists w c2 \<longrightarrow>
            trace (snd (snd (get_open_socket (p, w)))) =
              trace w @ [Create n, Connect n c2 (os_connect w (trace w @ [Create n]) n c2)]) \<and>
         (socket_attr p = None \<and> \<not> path_exists w c1 \<and> \<not> path_exists w c2 \<longrightarrow>
            fst (get_open_socket (p, w)) =
              Inl (RuntimeError (lit ''cmus is running, but its socket is not found'')) \<and>
            trace (snd (snd (get_open_socket (p, w)))) = trace w @ [Create n] \<and>
            socket_attr (fst (snd (get_open_socket (p, w)))) = None)"
proof -
  have sp: "\<And>q v. environ v = environ w \<Longrightarrow> path_exists v = path_exists w \<Longrightarrow>
      socket_path (q, v) =
           (if path_exists w c1 then Inr c1
            else if path_exists w c2 then Inr c2
            else Inl (RuntimeError (lit ''cmus is running, but its socket is not found'')),
            (q, v))"
    using assms(1-4)
    by (simp add: socket_path_unfold first_existing_result del: first_existing.simps)
  have a: "socket_path (p, w) =
           (if path_exists w c1 then Inr c1
            else if path_exists w c2 then Inr c2
            else Inl (RuntimeError (lit ''cmus is running, but its socket is not found'')),
            (p, w))"
    by (rule sp) simp_all
  have b: "socket_attr p = None \<Longrightarrow> \<not> path_exists w c1 \<Longrightarrow> path_exists w c2 \<Longrightarrow>
            trace (snd (snd (get_open_socket (p, w)))) =
              trace w @ [Create n, Connect n c2 (os_connect w (trace w @ [Create n]) n c2)]"
    using assms(5) by (simp add: get_open_socket_fresh Let_def sp)
  have c: "socket_attr p = None \<Longrightarrow> \<not> path_exists w c1 \<Longrightarrow> \<not> path_exists w c2 \<Longrightarrow>
            fst (get_open_socket (p, w)) =
              Inl (RuntimeError (lit ''cmus is running, but its socket is not found'')) \<and>
            trace (snd (snd (get_open_socket (p, w)))) = trace w @ [Create n] \<and>
            socket_attr (fst (snd (get_open_socket (p, w)))) = None"
    using assms(5) by (simp add: get_open_socket_fresh Let_def sp)
  from a b c show ?thesis by blast
qed

text \<open>
  A machine with the socket under the home directory only, and one with the socket at
  neither place.
\<close>

theorem socket_path_resolution_witness:
  "trace (snd (snd (get_open_socket (fresh_player, sample_world (lit ''/home/u/.cmus/socket'') [])))) =
     [Create 0, Connect 0 (lit ''/home/u/.cmus/socket'') True] \<and>
   fst (get_open_socket (fresh_player, sample_world (lit ''/tmp/cmus-socket'') [])) =
     Inl (RuntimeError (lit ''cmus is running, but its socket is not found'')) \<and>
   trace (snd (snd (get_open_socket (fresh_player, sample_world (lit ''/tmp/cmus-socket'') [])))) =
     [Create 0]"
proof -
  have j1: "os_path_join (lit ''/run/user/1000'') [lit ''cmus-socket''] = lit ''/run/user/1000/cmus-socket''"
    by (simp add: lit_def)
  have j2: "os_path_join (lit ''/home/u'') [lit ''.cmus'', lit ''socket''] = lit ''/home/u/.cmus/socket''"
    by (simp add: lit_def)
  have e1: "\<And>f. environ (sample_world f []) (lit ''XDG_RUNTIME_DIR'') = Some (lit ''/run/user/1000'')"
    by (simp add: sample_world_def lit_def)
  have e2: "\<And>f. environ (sample_world f []) (lit ''HOME'') = Some (lit ''/home/u'')"
    by (simp add: sample_world_def lit_def)
  have n: "\<And>f. 0 = next_socket (sample_world f [])"
    by (simp add: sample_world_def)
  note t = socket_path_resolution[where p = fresh_player, OF e1 e2 j1[symmetric] j2[symmetric] n]
  have x1: "\<not> path_exists (sample_world (lit ''/home/u/.cmus/socket'') []) (lit ''/run/user/1000/cmus-socket'')"
       "path_exists (sample_world (lit ''/home/u/.cmus/socket'') []) (lit ''/home/u/.cmus/socket'')"
       "\<not> path_exists (sample_world (lit ''/tmp/cmus-socket'') []) (lit ''/run/user/1000/cmus-socket'')"
       "\<not> path_exists (sample_world (lit ''/tmp/cmus-socket'') []) (lit ''/home/u/.cmus/socket'')"
    by (simp_all add: sample_world_def lit_def)
  have x2: "socket_attr fresh_player = None" by (simp add: fresh_player_def)
  from t[of "lit ''/home/u/.cmus/socket''"] t[of "lit ''/tmp/cmus-socket''"] x1 x2
  show ?thesis by (simp add: sample_world_def)
qed

text \<open>
  C2. The resolution is to try the candidate under the runtime directory first and the
  one under the home directory second, to connect to the first that exists, and to end
  in the not-found error when neither does. The source builds both candidates, each
  from its environment variable, before it tests either, and so misses this when a
  variable is not set. On a machine without \<open>XDG_RUNTIME_DIR\<close> whose socket under the
  home directory exists, the lookup raises \<open>KeyError\<close>: no connection to that socket
  is attempted. On a machine without \<open>HOME\<close> whose socket under the runtime directory
  exists, the first candidate is never returned: the lookup of \<open>HOME\<close> raises
  \<open>KeyError\<close>. In both the error is not the not-found error.
\<close>

theorem socket_path_variable_unset:
  "path_exists ((sample_world (lit ''/home/u/.cmus/socket'') [])
       \<lparr>environ := [lit ''HOME'' \<mapsto> lit ''/home/u'']\<rparr>) (lit ''/home/u/.cmus/socket'') \<and>
   fst (get_open_socket (fresh_player, (sample_world (lit ''/home/u/.cmus/socket'') [])
       \<lparr>environ := [lit ''HOME'' \<mapsto> lit ''/home/u'']\<rparr>)) =
     Inl (KeyError (lit ''XDG_RUNTIME_DIR'')) \<and>
   trace (snd (snd (get_open_socket (fresh_player, (sample_world (lit ''/home/u/.cmus/socket'') [])
       \<lparr>environ := [lit ''HOME'' \<mapsto> lit ''/home/u'']\<rparr>)))) = [Create 0] \<and>
   path_exists ((sample_world (lit ''/run/user/1000/cmus-socket'') [])
       \<lparr>environ := [lit ''XDG_RUNTIME_DIR'' \<mapsto> lit ''/run/user/1000'']\<rparr>)
     (lit ''/run/user/1000/cmus-socket'') \<and>
   fst (get_open_socket (fresh_player, (sample_world (lit ''/run/user/1000/cmus-socket'') [])
       \<lparr>environ := [lit ''XDG_RUNTIME_DIR'' \<mapsto> lit ''/run/user/1000'']\<rparr>)) =
     Inl (KeyError (lit ''HOME'')) \<and>
   trace (snd (snd (get_open_socket (fresh_player, (sample_world (lit ''/run/user/1000/cmus-socket'') [])
       \<lparr>environ := [lit ''XDG_RUNTIME_DIR'' \<mapsto> lit ''/run/user/1000'']\<rparr>)))) = [Create 0]"
  by (simp add: get_open_socket_fresh fresh_player_def socket_path_unfold Let_def sample_world_def
      lit_def)

subsection \<open>Queries and commands of the player\<close>

lemma discard_alt: "discard m st = (map_sum id (\<lambda>_. ()) (fst (m st)), snd (m st))"
  by (simp add: discard_def then_do_alt return_def split: sum.splits)

lemma query_alt:
  "then_do (send_socket_command c) (\<lambda>r. return (f r)) st =
     (map_sum id f (fst (send_socket_command c st)), snd (send_socket_command c st))"
  by (simp add: then_do_alt return_def split: sum.splits)

lemma query_result:
  assumes "then_do (send_socket_command c) (\<lambda>r. return (f r)) st = (Inr b, st1)"
  shows "\<exists>r. send_socket_command c st = (Inr r, st1) \<and> b = f r"
  using assms unfolding query_alt
  by (cases "send_socket_command c st") (auto simp: map_sum_def split: sum.splits)

lemma ascii_lit_status: "\<forall>x \<in> set (lit ''status''). x < 128"
  by (simp add: lit_def)

lemma ascii_lit_play: "\<forall>x \<in> set (lit ''player-play''). x < 128"
  by (simp add: lit_def)

lemma ascii_lit_pause: "\<forall>x \<in> set (lit ''player-pause''). x < 128"
  by (simp add: lit_def)

lemma ascii_lit_stop: "\<forall>x \<in> set (lit ''player-stop''). x < 128"
  by (simp add: lit_def)

text \<open>A command issued once the socket is cached: it is handed to \<open>send\<close> whatever follows.\<close>

lemma command_on_cached:
  assumes "socket_attr p \<noteq> None" and "\<forall>x \<in> set (lit c). x < 128"
  shows "fst (snd (send_socket_command (lit c) (p, w))) = p \<and>
         prefix (trace w) (trace (snd (snd (send_socket_command (lit c) (p, w))))) \<and>
         issued w (snd (snd (send_socket_command (lit c) (p, w)))) = [c @ ''\<newline>'']"
proof -
  obtain r p1 w1 where e: "send_socket_command (lit c) (p, w) = (r, (p1, w1))"
    by (metis prod.collapse)
  from assms(1) obtain s where "socket_attr p = Some s" by blast
  from send_socket_command_cached[OF e this assms(2)] send_socket_command_effect(1)[OF e] e
  show ?thesis by (simp add: char_of_lit char_of_newline)
qed

text \<open>A command that succeeded: it was handed to \<open>send\<close>, and the socket is cached.\<close>

lemma command_done:
  assumes "send_socket_command (lit c) (p, w) = (Inr r, (p1, w1))"
  shows "socket_attr p1 \<noteq> None \<and> prefix (trace w) (trace w1) \<and> issued w w1 = [c @ ''\<newline>'']"
  using send_socket_command_effect(1)[OF assms] send_socket_command_effect(3)[OF assms refl]
  by (simp add: char_of_lit char_of_newline)

section \<open>The status queries\<close>

text \<open>
  C3. Whatever string the transport returns for the command \<open>status\<close>, each of the
  three queries answers with its own substring test on it: \<open>status stopped\<close> for
  \<open>is_stopped\<close>, \<open>status paused\<close> for \<open>is_paused\<close>, \<open>status playing\<close> for
  \<open>is_playing\<close>. So on a reply with exactly one of the three only that query is true,
  and on a reply with none of them all three are false.
\<close>

theorem status_queries:
  assumes "send_socket_command (lit ''status'') st = (Inr reply, st')"
  shows "is_stopped st = (Inr (sublist (lit ''status stopped'') reply), st') \<and>
         is_paused st = (Inr (sublist (lit ''status paused'') reply), st') \<and>
         is_playing st = (Inr (sublist (lit ''status playing'') reply), st')"
  using assms
  by (simp add: is_stopped_def is_paused_def is_playing_def query_alt py_in_sublist)


lemma sample_exchange:
  assumes "\<forall>x \<in> set (lit c). x < 128"
  shows "send_socket_command (lit c) (fresh_player, sample_world (lit ''/run/user/1000/cmus-socket'') reply) =
     (decode_utf8 (take 2048 reply),
      (\<lparr>socket_attr = Some 0\<rparr>,
       (sample_world (lit ''/run/user/1000/cmus-socket'') reply)
         \<lparr>next_socket := 1,
          trace := [Create 0, Connect 0 (lit ''/run/user/1000/cmus-socket'') True,
                    Send 0 (c @ ''\<newline>''), Recv 0 2048]\<rparr>))"
proof -
  have "encode_ascii (lit c @ [10]) = Inr (c @ ''\<newline>'')"
    using assms by (simp add: encode_ascii_def char_of_newline char_of_lit)
  then show ?thesis
    by (simp add: send_socket_command_unfold sample_get_open_socket)
       (simp add: sample_world_def)
qed

lemma exchange_cached:
  assumes "socket_attr p = Some s" and "\<forall>x \<in> set (lit c). x < 128"
    and "os_send w = (\<lambda>_ _ _. True)" and "os_recv w = (\<lambda>_ _. Some reply)"
  shows "send_socket_command (lit c) (p, w) =
     (decode_utf8 (take 2048 reply),
      (p, w\<lparr>trace := trace w @ [Send s (c @ ''\<newline>''), Recv s 2048]\<rparr>))"
proof -
  have "encode_ascii (lit c @ [10]) = Inr (c @ ''\<newline>'')"
    using assms(2) by (simp add: encode_ascii_def char_of_newline char_of_lit)
  with assms(1,3,4) show ?thesis
    by (simp add: send_socket_command_unfold get_open_socket_cached)
qed

text \<open>The three queries on a player that answers \<open>status paused\<close>.\<close>

theorem status_queries_witness:
  "fst (is_stopped (fresh_player, sample_world (lit ''/run/user/1000/cmus-socket'') ''status paused'')) = Inr False \<and>
   fst (is_paused (fresh_player, sample_world (lit ''/run/user/1000/cmus-socket'') ''status paused'')) = Inr True \<and>
   fst (is_playing (fresh_player, sample_world (lit ''/run/user/1000/cmus-socket'') ''status paused'')) = Inr False"
proof -
  have d: "decode_utf8 (take 2048 ''status paused'') = Inr (lit ''status paused'')"
    by (simp add: decode_utf8_def lit_def)
  have s: "\<not> sublist (lit ''status stopped'') (lit ''status paused'')"
          "sublist (lit ''status paused'') (lit ''status paused'')"
          "\<not> sublist (lit ''status playing'') (lit ''status paused'')"
    by (simp_all add: lit_def sublist_code)
  from status_queries[OF sample_exchange[OF ascii_lit_status, of "''status paused''", unfolded d]] s
  show ?thesis by simp
qed

section \<open>Play or resume\<close>

lemma play_pause_stopped:
  assumes "is_stopped (p, w) = (Inr True, (p1, w1))"
  shows "issued w (snd (snd (play_pause (p, w)))) = [''status\<newline>'', ''player-play\<newline>'']"
proof -
  from assms obtain r where "send_socket_command (lit ''status'') (p, w) = (Inr r, (p1, w1))"
    unfolding is_stopped_def by (blast dest: query_result)
  from command_done[OF this]
  have a: "socket_attr p1 \<noteq> None" "prefix (trace w) (trace w1)" "issued w w1 = [''status\<newline>'']"
    by simp_all
  have "play_pause (p, w) = play (p1, w1)"
    using assms by (simp add: play_pause_def then_do_def)
  then have "snd (snd (play_pause (p, w))) = snd (snd (send_socket_command (lit ''player-play'') (p1, w1)))"
    by (simp add: play_def discard_alt)
  with command_on_cached[OF a(1) ascii_lit_play, of w1] a(2,3) show ?thesis
    using issued_trans[of w w1 "snd (snd (send_socket_command (lit ''player-play'') (p1, w1)))"]
    by simp
qed

lemma play_pause_not_stopped:
  assumes "is_stopped (p, w) = (Inr False, (p1, w1))" and "fst (is_paused (p1, w1)) = Inr b"
  shows "issued w (snd (snd (play_pause (p, w)))) =
           [''status\<newline>'', ''status\<newline>'', ''player-pause\<newline>'']"
proof -
  from assms(1) obtain r where "send_socket_command (lit ''status'') (p, w) = (Inr r, (p1, w1))"
    unfolding is_stopped_def by (blast dest: query_result)
  from command_done[OF this]
  have a: "prefix (trace w) (trace w1)" "issued w w1 = [''status\<newline>'']"
    by simp_all
  obtain p2 w2 where q: "is_paused (p1, w1) = (Inr b, (p2, w2))"
    using assms(2) by (metis prod.collapse)
  then obtain r2 where "send_socket_command (lit ''status'') (p1, w1) = (Inr r2, (p2, w2))"
    unfolding is_paused_def by (blast dest: query_result)
  from command_done[OF this]
  have b: "socket_attr p2 \<noteq> None" "prefix (trace w1) (trace w2)" "issued w1 w2 = [''status\<newline>'']"
    by simp_all
  have "play_pause (p, w) = pause (p2, w2)"
    using assms(1) q by (simp add: play_pause_def toggle_pause_def unpause_def then_do_def)
  then have e: "snd (snd (play_pause (p, w))) =
      snd (snd (send_socket_command (lit ''player-pause'') (p2, w2)))"
    by (simp add: pause_def discard_alt)
  from a b have c: "prefix (trace w) (trace w2)" "issued w w2 = [''status\<newline>'', ''status\<newline>'']"
    using issued_trans[of w w1 w2] by auto
  with command_on_cached[OF b(1) ascii_lit_pause, of w2] e show ?thesis
    using issued_trans[of w w2 "snd (snd (send_socket_command (lit ''player-pause'') (p2, w2)))"]
    by simp
qed

text \<open>
  \<open>play_pause\<close> in terms of its own queries. It asks \<open>is_stopped\<close> first. When that
  query is true, the commands handed to the socket are the query and one
  \<open>player-play\<close>, and no pause. When it is false, \<open>is_paused\<close> is asked next, and
  whether that is false or true, the commands are the two queries and the same one
  \<open>player-pause\<close>.
\<close>

theorem play_pause_commands:
  "(is_stopped (p, w) = (Inr True, (p1, w1)) \<longrightarrow>
      issued w (snd (snd (play_pause (p, w)))) = [''status\<newline>'', ''player-play\<newline>'']) \<and>
   (is_stopped (p, w) = (Inr False, (p1, w1)) \<and> fst (is_paused (p1, w1)) = Inr False \<longrightarrow>
      issued w (snd (snd (play_pause (p, w)))) =
        [''status\<newline>'', ''status\<newline>'', ''player-pause\<newline>'']) \<and>
   (is_stopped (p, w) = (Inr False, (p1, w1)) \<and> fst (is_paused (p1, w1)) = Inr True \<longrightarrow>
      issued w (snd (snd (play_pause (p, w)))) =
        [''status\<newline>'', ''status\<newline>'', ''player-pause\<newline>''])"
  using play_pause_stopped play_pause_not_stopped by blast


lemma sample_query:
  assumes "decode_utf8 (take 2048 reply) = Inr text"
  shows "then_do (send_socket_command (lit ''status'')) (\<lambda>r. return (py_in n r))
           (fresh_player, sample_world (lit ''/run/user/1000/cmus-socket'') reply) =
         (Inr (py_in n text),
          (\<lparr>socket_attr = Some 0\<rparr>,
           (sample_world (lit ''/run/user/1000/cmus-socket'') reply)
             \<lparr>next_socket := 1,
              trace := [Create 0, Connect 0 (lit ''/run/user/1000/cmus-socket'') True,
                        Send 0 ''status\<newline>'', Recv 0 2048]\<rparr>))"
  by (simp add: query_alt sample_exchange[OF ascii_lit_status] assms)

lemma sample_query_cached:
  assumes "decode_utf8 (take 2048 reply) = Inr text"
  shows "fst (then_do (send_socket_command (lit ''status'')) (\<lambda>r. return (py_in n r))
           (\<lparr>socket_attr = Some 0\<rparr>,
            (sample_world f reply)\<lparr>next_socket := k, trace := t\<rparr>)) =
         Inr (py_in n text)"
  using exchange_cached[where p = "\<lparr>socket_attr = Some 0\<rparr>" and s = 0 and c = "''status''"
      and w = "(sample_world f reply)\<lparr>next_socket := k, trace := t\<rparr>" and reply = reply]
  by (simp add: query_alt assms ascii_lit_status sample_world_def)

text \<open>
  A stopped, a playing and a paused player, each started on a player object that has
  no socket yet.
\<close>

theorem play_pause_commands_witness:
  "issued (sample_world (lit ''/run/user/1000/cmus-socket'') ''status stopped'')
     (snd (snd (play_pause
        (fresh_player, sample_world (lit ''/run/user/1000/cmus-socket'') ''status stopped'')))) =
     [''status\<newline>'', ''player-play\<newline>''] \<and>
   issued (sample_world (lit ''/run/user/1000/cmus-socket'') ''status playing'')
     (snd (snd (play_pause
        (fresh_player, sample_world (lit ''/run/user/1000/cmus-socket'') ''status playing'')))) =
     [''status\<newline>'', ''status\<newline>'', ''player-pause\<newline>''] \<and>
   issued (sample_world (lit ''/run/user/1000/cmus-socket'') ''status paused'')
     (snd (snd (play_pause
        (fresh_player, sample_world (lit ''/run/user/1000/cmus-socket'') ''status paused'')))) =
     [''status\<newline>'', ''status\<newline>'', ''player-pause\<newline>'']"
proof -
  have d: "decode_utf8 (take 2048 ''status stopped'') = Inr (lit ''status stopped'')"
          "decode_utf8 (take 2048 ''status playing'') = Inr (lit ''status playing'')"
          "decode_utf8 (take 2048 ''status paused'') = Inr (lit ''status paused'')"
    by (simp_all add: decode_utf8_def lit_def)
  have s: "py_in (lit ''status stopped'') (lit ''status stopped'') = True"
          "py_in (lit ''status stopped'') (lit ''status playing'') = False"
          "py_in (lit ''status stopped'') (lit ''status paused'') = False"
          "py_in (lit ''status paused'') (lit ''status playing'') = False"
          "py_in (lit ''status paused'') (lit ''status paused'') = True"
    by (simp_all add: lit_def)
  note q = sample_query[OF d(1), of "lit ''status stopped''", folded is_stopped_def, unfolded s]
           sample_query[OF d(2), of "lit ''status stopped''", folded is_stopped_def, unfolded s]
           sample_query[OF d(3), of "lit ''status stopped''", folded is_stopped_def, unfolded s]
  note c = sample_query_cached[OF d(2), of "lit ''status paused''", folded is_paused_def, unfolded s]
           sample_query_cached[OF d(3), of "lit ''status paused''", folded is_paused_def, unfolded s]
  from play_pause_commands[THEN conjunct1, rule_format, OF q(1)]
       play_pause_commands[THEN conjunct2, THEN conjunct1, rule_format, OF conjI[OF q(2) c(1)]]
       play_pause_commands[THEN conjunct2, THEN conjunct2, rule_format, OF conjI[OF q(3) c(2)]]
  show ?thesis by blast
qed


text \<open>
  C4. \<open>play_pause\<close> is to send one \<open>player-play\<close> to a stopped player and one
  \<open>player-pause\<close> to a playing or a paused one; its docstring says that it pauses if
  playing. It decides by looking for \<open>status stopped\<close> anywhere in the reply, not in
  its status line. A playing player whose current file is \<open>/m/status stopped.mp3\<close>
  answers with a reply that has \<open>status playing\<close> as its status line, and
  \<open>is_playing\<close> is true on it; yet \<open>play_pause\<close> sends \<open>player-play\<close> and no
  pause.
\<close>

theorem play_pause_marker_in_file_name:
  "fst (is_playing (fresh_player,
      sample_world (lit ''/run/user/1000/cmus-socket'')
        ''status playing\<newline>file /m/status stopped.mp3\<newline>'')) = Inr True \<and>
   issued (sample_world (lit ''/run/user/1000/cmus-socket'')
        ''status playing\<newline>file /m/status stopped.mp3\<newline>'')
     (snd (snd (play_pause (fresh_player,
        sample_world (lit ''/run/user/1000/cmus-socket'')
          ''status playing\<newline>file /m/status stopped.mp3\<newline>'')))) =
     [''status\<newline>'', ''player-play\<newline>'']"
proof -
  have d: "decode_utf8 (take 2048 ''status playing\<newline>file /m/status stopped.mp3\<newline>'') =
           Inr (lit ''status playing\<newline>file /m/status stopped.mp3\<newline>'')"
    by (simp add: decode_utf8_def lit_def)
  have s: "py_in (lit ''status stopped'') (lit ''status playing\<newline>file /m/status stopped.mp3\<newline>'') = True"
          "py_in (lit ''status playing'') (lit ''status playing\<newline>file /m/status stopped.mp3\<newline>'') = True"
    by (simp_all add: lit_def)
  note q = sample_query[OF d, of "lit ''status stopped''", folded is_stopped_def, unfolded s]
           sample_query[OF d, of "lit ''status playing''", folded is_playing_def, unfolded s]
  from play_pause_stopped[OF q(1)] q(2) show ?thesis by simp
qed

section \<open>Stopping\<close>

lemma in_player_alt:
  "in_player m (s, w) =
     (fst (m (player s, w)),
      (s\<lparr>player := fst (snd (m (player s, w)))\<rparr>, snd (snd (m (player s, w)))))"
  by (simp add: in_player_def split: prod.splits)

lemma is_playing_effect:
  assumes "is_playing (p, w) = (Inr b, (p1, w1))"
  shows "socket_attr p1 \<noteq> None \<and> prefix (trace w) (trace w1) \<and> issued w w1 = [''status\<newline>'']"
proof -
  from assms obtain r where "send_socket_command (lit ''status'') (p, w) = (Inr r, (p1, w1))"
    unfolding is_playing_def by (blast dest: query_result)
  from command_done[OF this] show ?thesis by simp
qed

lemma stop_effect:
  assumes "socket_attr p \<noteq> None"
  shows "prefix (trace w) (trace (snd (snd (stop (p, w))))) \<and>
         issued w (snd (snd (stop (p, w)))) = [''player-stop\<newline>'']"
  using command_on_cached[OF assms ascii_lit_stop, of w]
  by (simp add: stop_def discard_alt)

lemma issued_hook:
  assumes "prefix (trace w) (trace w1)"
  shows "issued w (log (Hook h) w1) = issued w w1"
proof -
  from assms obtain ev where "trace w1 = trace w @ ev" by (auto simp: prefix_def)
  then show ?thesis by (simp add: issued_def log_def commands_sent_append)
qed

lemma CmusOCPAudioService_stop_unfold:
  "CmusOCPAudioService_stop (s, w) =
     (case is_playing (player s, w) of
        (Inl e, (p1, w1)) \<Rightarrow> (Inl e, (s\<lparr>player := p1\<rparr>, w1))
      | (Inr b, (p1, w1)) \<Rightarrow>
          if b then
            (case stop (p1, w1) of
               (Inl e, (p2, w2)) \<Rightarrow> (Inl e, (s\<lparr>player := p2\<rparr>, w2))
             | (Inr u, (p2, w2)) \<Rightarrow> (Inr True, (s\<lparr>player := p2\<rparr>, w2)))
          else (Inr False, (s\<lparr>player := p1\<rparr>, w1)))"
  by (simp add: CmusOCPAudioService_stop_def then_do_def in_player_def return_def
      split: prod.splits sum.splits)

lemma OVOSCmusService_stop_unfold:
  "OVOSCmusService_stop (s, w) =
     (case is_playing (player s, w) of
        (Inl e, (p1, w1)) \<Rightarrow> (Inl e, (s\<lparr>player := p1\<rparr>, w1))
      | (Inr b, (p1, w1)) \<Rightarrow>
          if b then
            (case stop (p1, w1) of
               (Inl e, (p2, w2)) \<Rightarrow> (Inl e, (s\<lparr>player := p2\<rparr>, w2))
             | (Inr u, (p2, w2)) \<Rightarrow> (Inr True, (s\<lparr>player := p2\<rparr>, log (Hook ''ocp_stop'') w2)))
          else (Inr False, (s\<lparr>player := p1\<rparr>, w1)))"
  by (simp add: OVOSCmusService_stop_def then_do_def in_player_def return_def hook_def
      split: prod.splits sum.splits)

lemma CmusOCPAudioService_stop_idle:
  assumes "in_player is_playing (s, w) = (Inr False, (s1, w1))"
  shows "CmusOCPAudioService_stop (s, w) = (Inr False, (s1, w1)) \<and> issued w w1 = [''status\<newline>'']"
proof -
  obtain r p1 w1' where e: "is_playing (player s, w) = (r, (p1, w1'))"
    by (metis prod.collapse)
  with assms have f: "r = Inr False" "s1 = s\<lparr>player := p1\<rparr>" "w1' = w1"
    by (simp_all add: in_player_alt)
  with e is_playing_effect[of "player s" w False p1 w1] show ?thesis
    by (simp add: CmusOCPAudioService_stop_unfold)
qed

lemma OVOSCmusService_stop_idle:
  assumes "in_player is_playing (s, w) = (Inr False, (s1, w1))"
  shows "OVOSCmusService_stop (s, w) = (Inr False, (s1, w1)) \<and> issued w w1 = [''status\<newline>'']"
proof -
  obtain r p1 w1' where e: "is_playing (player s, w) = (r, (p1, w1'))"
    by (metis prod.collapse)
  with assms have f: "r = Inr False" "s1 = s\<lparr>player := p1\<rparr>" "w1' = w1"
    by (simp_all add: in_player_alt)
  with e is_playing_effect[of "player s" w False p1 w1] show ?thesis
    by (simp add: OVOSCmusService_stop_unfold)
qed

lemma CmusOCPAudioService_stop_playing:
  assumes "in_player is_playing (s, w) = (Inr True, (s1, w1))"
    and "fst (in_player stop (s1, w1)) = Inr ()"
  shows "fst (CmusOCPAudioService_stop (s, w)) = Inr True \<and>
         issued w (snd (snd (CmusOCPAudioService_stop (s, w)))) =
           [''status\<newline>'', ''player-stop\<newline>'']"
proof -
  obtain r p1 w1' where e: "is_playing (player s, w) = (r, (p1, w1'))"
    by (metis prod.collapse)
  with assms(1) have f: "r = Inr True" "s1 = s\<lparr>player := p1\<rparr>" "w1' = w1"
    by (simp_all add: in_player_alt)
  from e f is_playing_effect[of "player s" w True p1 w1]
  have a: "socket_attr p1 \<noteq> None" "prefix (trace w) (trace w1)" "issued w w1 = [''status\<newline>'']"
    by simp_all
  obtain p2 w2 where g: "stop (p1, w1) = (Inr (), (p2, w2))"
    using assms(2) f by (simp add: in_player_alt) (metis prod.collapse)
  from stop_effect[OF a(1), of w1] g
  have b: "prefix (trace w1) (trace w2)" "issued w1 w2 = [''player-stop\<newline>'']"
    by simp_all
  from e f g a b issued_trans[of w w1 w2] show ?thesis
    by (simp add: CmusOCPAudioService_stop_unfold)
qed

lemma OVOSCmusService_stop_playing:
  assumes "in_player is_playing (s, w) = (Inr True, (s1, w1))"
    and "fst (in_player stop (s1, w1)) = Inr ()"
  shows "fst (OVOSCmusService_stop (s, w)) = Inr True \<and>
         issued w (snd (snd (OVOSCmusService_stop (s, w)))) =
           [''status\<newline>'', ''player-stop\<newline>'']"
proof -
  obtain r p1 w1' where e: "is_playing (player s, w) = (r, (p1, w1'))"
    by (metis prod.collapse)
  with assms(1) have f: "r = Inr True" "s1 = s\<lparr>player := p1\<rparr>" "w1' = w1"
    by (simp_all add: in_player_alt)
  from e f is_playing_effect[of "player s" w True p1 w1]
  have a: "socket_attr p1 \<noteq> None" "prefix (trace w) (trace w1)" "issued w w1 = [''status\<newline>'']"
    by simp_all
  obtain p2 w2 where g: "stop (p1, w1) = (Inr (), (p2, w2))"
    using assms(2) f by (simp add: in_player_alt) (metis prod.collapse)
  from stop_effect[OF a(1), of w1] g
  have b: "prefix (trace w1) (trace w2)" "issued w1 w2 = [''player-stop\<newline>'']"
    by simp_all
  from a b have "prefix (trace w) (trace w2)" by auto
  from issued_hook[OF this] e f g a b issued_trans[of w w1 w2] show ?thesis
    by (simp add: OVOSCmusService_stop_unfold)
qed

lemma CmusOCPAudioService_stop_result:
  assumes "fst (CmusOCPAudioService_stop (s, w)) = Inr b"
  shows "b \<longleftrightarrow> ''player-stop\<newline>'' \<in> set (issued w (snd (snd (CmusOCPAudioService_stop (s, w)))))"
proof -
  obtain r p1 w1 where e: "is_playing (player s, w) = (r, (p1, w1))"
    by (metis prod.collapse)
  with assms obtain c where c: "r = Inr c"
    by (cases r) (simp_all add: CmusOCPAudioService_stop_unfold)
  have i: "in_player is_playing (s, w) = (Inr c, (s\<lparr>player := p1\<rparr>, w1))"
    using e c by (simp add: in_player_alt)
  show ?thesis
  proof (cases c)
    case False
    with CmusOCPAudioService_stop_idle[of s w "s\<lparr>player := p1\<rparr>" w1] i assms show ?thesis
      by simp
  next
    case True
    have "fst (in_player stop (s\<lparr>player := p1\<rparr>, w1)) = Inr ()"
      using assms e c True
      by (cases "stop (p1, w1)")
         (auto simp: CmusOCPAudioService_stop_unfold in_player_alt split: sum.splits)
    with CmusOCPAudioService_stop_playing[of s w "s\<lparr>player := p1\<rparr>" w1] i True assms
    show ?thesis by simp
  qed
qed

lemma OVOSCmusService_stop_result:
  assumes "fst (OVOSCmusService_stop (s, w)) = Inr b"
  shows "b \<longleftrightarrow> ''player-stop\<newline>'' \<in> set (issued w (snd (snd (OVOSCmusService_stop (s, w)))))"
proof -
  obtain r p1 w1 where e: "is_playing (player s, w) = (r, (p1, w1))"
    by (metis prod.collapse)
  with assms obtain c where c: "r = Inr c"
    by (cases r) (simp_all add: OVOSCmusService_stop_unfold)
  have i: "in_player is_playing (s, w) = (Inr c, (s\<lparr>player := p1\<rparr>, w1))"
    using e c by (simp add: in_player_alt)
  show ?thesis
  proof (cases c)
    case False
    with OVOSCmusService_stop_idle[of s w "s\<lparr>player := p1\<rparr>" w1] i assms show ?thesis
      by simp
  next
    case True
    have "fst (in_player stop (s\<lparr>player := p1\<rparr>, w1)) = Inr ()"
      using assms e c True
      by (cases "stop (p1, w1)")
         (auto simp: OVOSCmusService_stop_unfold in_player_alt split: sum.splits)
    with OVOSCmusService_stop_playing[of s w "s\<lparr>player := p1\<rparr>" w1] i True assms
    show ?thesis by simp
  qed
qed


text \<open>
  \<open>stop\<close> of either backend in terms of its own query. It asks \<open>is_playing\<close> first.
  When that query is false, \<open>stop\<close> returns \<open>False\<close> and the only thing sent was the
  query. When it is true and the command \<open>player-stop\<close> goes through, \<open>stop\<close>
  returns \<open>True\<close> and exactly one \<open>player-stop\<close> was sent after the query. Whenever
  \<open>stop\<close> returns a boolean, it says whether \<open>player-stop\<close> was sent.
\<close>

theorem stop_reports_issue:
  fixes s s1 :: service and v v1 :: ovos_service
  shows
  "(in_player is_playing (s, w) = (Inr False, (s1, w1)) \<longrightarrow>
      CmusOCPAudioService_stop (s, w) = (Inr False, (s1, w1)) \<and> issued w w1 = [''status\<newline>'']) \<and>
   (in_player is_playing (s, w) = (Inr True, (s1, w1)) \<and> fst (in_player stop (s1, w1)) = Inr () \<longrightarrow>
      fst (CmusOCPAudioService_stop (s, w)) = Inr True \<and>
      issued w (snd (snd (CmusOCPAudioService_stop (s, w)))) =
        [''status\<newline>'', ''player-stop\<newline>'']) \<and>
   (fst (CmusOCPAudioService_stop (s, w)) = Inr b \<longrightarrow>
      (b \<longleftrightarrow> ''player-stop\<newline>'' \<in> set (issued w (snd (snd (CmusOCPAudioService_stop (s, w))))))) \<and>
   (in_player is_playing (v, w) = (Inr False, (v1, w1)) \<longrightarrow>
      OVOSCmusService_stop (v, w) = (Inr False, (v1, w1)) \<and> issued w w1 = [''status\<newline>'']) \<and>
   (in_player is_playing (v, w) = (Inr True, (v1, w1)) \<and> fst (in_player stop (v1, w1)) = Inr () \<longrightarrow>
      fst (OVOSCmusService_stop (v, w)) = Inr True \<and>
      issued w (snd (snd (OVOSCmusService_stop (v, w)))) =
        [''status\<newline>'', ''player-stop\<newline>'']) \<and>
   (fst (OVOSCmusService_stop (v, w)) = Inr b \<longrightarrow>
      (b \<longleftrightarrow> ''player-stop\<newline>'' \<in> set (issued w (snd (snd (OVOSCmusService_stop (v, w)))))))"
  using CmusOCPAudioService_stop_idle[of s w s1 w1] CmusOCPAudioService_stop_playing[of s w s1 w1]
    CmusOCPAudioService_stop_result[of s w b]
    OVOSCmusService_stop_idle[of v w v1 w1] OVOSCmusService_stop_playing[of v w v1 w1]
    OVOSCmusService_stop_result[of v w b]
  by blast

text \<open>
  The newer backend on a player that answers \<open>status stopped\<close>, the older one on a
  player that answers \<open>status playing\<close>.
\<close>

theorem stop_reports_issue_witness:
  "CmusOCPAudioService_stop
     (CmusOCPAudioService [], sample_world (lit ''/run/user/1000/cmus-socket'') ''status stopped'') =
     (Inr False,
      ((CmusOCPAudioService [])\<lparr>player := \<lparr>socket_attr = Some 0\<rparr>\<rparr>,
       (sample_world (lit ''/run/user/1000/cmus-socket'') ''status stopped'')
         \<lparr>next_socket := 1,
          trace := [Create 0, Connect 0 (lit ''/run/user/1000/cmus-socket'') True,
                    Send 0 ''status\<newline>'', Recv 0 2048]\<rparr>)) \<and>
   fst (OVOSCmusService_stop
     (OVOSCmusService [] (lit ''cmus''),
      sample_world (lit ''/run/user/1000/cmus-socket'') ''status playing'')) = Inr True \<and>
   issued (sample_world (lit ''/run/user/1000/cmus-socket'') ''status playing'')
     (snd (snd (OVOSCmusService_stop
       (OVOSCmusService [] (lit ''cmus''),
        sample_world (lit ''/run/user/1000/cmus-socket'') ''status playing'')))) =
     [''status\<newline>'', ''player-stop\<newline>'']"
proof -
  have d: "decode_utf8 (take 2048 ''status stopped'') = Inr (lit ''status stopped'')"
          "decode_utf8 (take 2048 ''status playing'') = Inr (lit ''status playing'')"
    by (simp_all add: decode_utf8_def lit_def)
  have s: "py_in (lit ''status playing'') (lit ''status stopped'') = False"
          "py_in (lit ''status playing'') (lit ''status playing'') = True"
    by (simp_all add: lit_def)
  note q = sample_query[OF d(1), of "lit ''status playing''", folded is_playing_def, unfolded s]
           sample_query[OF d(2), of "lit ''status playing''", folded is_playing_def, unfolded s]
  have i1: "in_player is_playing
      (CmusOCPAudioService [], sample_world (lit ''/run/user/1000/cmus-socket'') ''status stopped'') =
     (Inr False,
      ((CmusOCPAudioService [])\<lparr>player := \<lparr>socket_attr = Some 0\<rparr>\<rparr>,
       (sample_world (lit ''/run/user/1000/cmus-socket'') ''status stopped'')
         \<lparr>next_socket := 1,
          trace := [Create 0, Connect 0 (lit ''/run/user/1000/cmus-socket'') True,
                    Send 0 ''status\<newline>'', Recv 0 2048]\<rparr>))"
    using q(1) by (simp add: in_player_alt CmusOCPAudioService_def fresh_player_def)
  have i2: "in_player is_playing
      (OVOSCmusService [] (lit ''cmus''),
       sample_world (lit ''/run/user/1000/cmus-socket'') ''status playing'') =
     (Inr True,
      ((OVOSCmusService [] (lit ''cmus''))\<lparr>player := \<lparr>socket_attr = Some 0\<rparr>\<rparr>,
       (sample_world (lit ''/run/user/1000/cmus-socket'') ''status playing'')
         \<lparr>next_socket := 1,
          trace := [Create 0, Connect 0 (lit ''/run/user/1000/cmus-socket'') True,
                    Send 0 ''status\<newline>'', Recv 0 2048]\<rparr>))"
    using q(2) by (simp add: in_player_alt OVOSCmusService_def fresh_player_def)
  have i3: "fst (in_player stop
      ((OVOSCmusService [] (lit ''cmus''))\<lparr>player := \<lparr>socket_attr = Some 0\<rparr>\<rparr>,
       (sample_world (lit ''/run/user/1000/cmus-socket'') ''status playing'')
         \<lparr>next_socket := 1,
          trace := [Create 0, Connect 0 (lit ''/run/user/1000/cmus-socket'') True,
                    Send 0 ''status\<newline>'', Recv 0 2048]\<rparr>)) = Inr ()"
    using exchange_cached[where p = "\<lparr>socket_attr = Some 0\<rparr>" and s = 0 and c = "''player-stop''"
      and w = "(sample_world (lit ''/run/user/1000/cmus-socket'') ''status playing'')
         \<lparr>next_socket := 1,
          trace := [Create 0, Connect 0 (lit ''/run/user/1000/cmus-socket'') True,
                    Send 0 ''status\<newline>'', Recv 0 2048]\<rparr>" and reply = "''status playing''"]
    by (simp add: in_player_alt stop_def discard_alt ascii_lit_stop sample_world_def
        decode_utf8_def)
  from stop_reports_issue[THEN conjunct1, rule_format, OF i1]
       stop_reports_issue[THEN conjunct2, THEN conjunct2, THEN conjunct2, THEN conjunct2,
         THEN conjunct1, rule_format, OF conjI[OF i2 i3]]
  show ?thesis by blast
qed


text \<open>
  C5. \<open>stop\<close> is to return \<open>False\<close> and send no stop to a player that is already
  stopped, and to return \<open>True\<close> and send one stop to a playing one. It decides by
  looking for \<open>status playing\<close> anywhere in the reply, not in its status line. A
  stopped player whose current track has the title \<open>status playing\<close> answers with a
  reply that has \<open>status stopped\<close> as its status line, and \<open>is_stopped\<close> is true
  on it; yet \<open>stop\<close> of both backends returns \<open>True\<close> and sends \<open>player-stop\<close>.
\<close>

theorem stop_marker_in_title:
  "fst (is_stopped (fresh_player,
      sample_world (lit ''/run/user/1000/cmus-socket'')
        ''status stopped\<newline>tag title status playing\<newline>'')) = Inr True \<and>
   fst (CmusOCPAudioService_stop
     (CmusOCPAudioService [],
      sample_world (lit ''/run/user/1000/cmus-socket'')
        ''status stopped\<newline>tag title status playing\<newline>'')) = Inr True \<and>
   issued (sample_world (lit ''/run/user/1000/cmus-socket'')
        ''status stopped\<newline>tag title status playing\<newline>'')
     (snd (snd (CmusOCPAudioService_stop
       (CmusOCPAudioService [],
        sample_world (lit ''/run/user/1000/cmus-socket'')
          ''status stopped\<newline>tag title status playing\<newline>'')))) =
     [''status\<newline>'', ''player-stop\<newline>''] \<and>
   fst (OVOSCmusService_stop
     (OVOSCmusService [] (lit ''cmus''),
      sample_world (lit ''/run/user/1000/cmus-socket'')
        ''status stopped\<newline>tag title status playing\<newline>'')) = Inr True \<and>
   issued (sample_world (lit ''/run/user/1000/cmus-socket'')
        ''status stopped\<newline>tag title status playing\<newline>'')
     (snd (snd (OVOSCmusService_stop
       (OVOSCmusService [] (lit ''cmus''),
        sample_world (lit ''/run/user/1000/cmus-socket'')
          ''status stopped\<newline>tag title status playing\<newline>'')))) =
     [''status\<newline>'', ''player-stop\<newline>'']"
proof -
  let ?r = "''status stopped\<newline>tag title status playing\<newline>''"
  let ?W = "sample_world (lit ''/run/user/1000/cmus-socket'') ?r"
  let ?W1 = "?W\<lparr>next_socket := 1,
          trace := [Create 0, Connect 0 (lit ''/run/user/1000/cmus-socket'') True,
                    Send 0 ''status\<newline>'', Recv 0 2048]\<rparr>"
  have d: "decode_utf8 (take 2048 ?r) = Inr (lit ?r)"
    by (simp add: decode_utf8_def lit_def)
  have s: "py_in (lit ''status stopped'') (lit ?r) = True"
          "py_in (lit ''status playing'') (lit ?r) = True"
    by (simp_all add: lit_def)
  note q = sample_query[OF d, of "lit ''status stopped''", folded is_stopped_def, unfolded s]
           sample_query[OF d, of "lit ''status playing''", folded is_playing_def, unfolded s]
  have i1: "in_player is_playing (CmusOCPAudioService [], ?W) =
     (Inr True, ((CmusOCPAudioService [])\<lparr>player := \<lparr>socket_attr = Some 0\<rparr>\<rparr>, ?W1))"
    using q(2) by (simp add: in_player_alt CmusOCPAudioService_def fresh_player_def)
  have i2: "in_player is_playing (OVOSCmusService [] (lit ''cmus''), ?W) =
     (Inr True, ((OVOSCmusService [] (lit ''cmus''))\<lparr>player := \<lparr>socket_attr = Some 0\<rparr>\<rparr>, ?W1))"
    using q(2) by (simp add: in_player_alt OVOSCmusService_def fresh_player_def)
  have e: "fst (stop (\<lparr>socket_attr = Some 0\<rparr>, ?W1)) = Inr ()"
    using exchange_cached[where p = "\<lparr>socket_attr = Some 0\<rparr>" and s = 0 and c = "''player-stop''"
      and w = ?W1 and reply = ?r]
    by (simp add: stop_def discard_alt ascii_lit_stop sample_world_def decode_utf8_def)
  have i3: "fst (in_player stop
      ((CmusOCPAudioService [])\<lparr>player := \<lparr>socket_attr = Some 0\<rparr>\<rparr>, ?W1)) = Inr ()"
    "fst (in_player stop
      ((OVOSCmusService [] (lit ''cmus''))\<lparr>player := \<lparr>socket_attr = Some 0\<rparr>\<rparr>, ?W1)) = Inr ()"
    using e by (simp_all add: in_player_alt)
  from CmusOCPAudioService_stop_playing[OF i1 i3(1)] OVOSCmusService_stop_playing[OF i2 i3(2)] q(1)
  show ?thesis by simp
qed

section \<open>Playing the queue\<close>

lemma play_effect:
  assumes "socket_attr p \<noteq> None"
  shows "prefix (trace w) (trace (snd (snd (play (p, w))))) \<and>
         issued w (snd (snd (play (p, w)))) = [''player-play\<newline>'']"
  using command_on_cached[OF assms ascii_lit_play, of w]
  by (simp add: play_def discard_alt)

text \<open>
  \<open>add_path\<close> hands at most its one command to \<open>send\<close>, and exactly that one when it
  returns; the socket is cached then.
\<close>

lemma add_path_effect:
  assumes "add_path v (p, w) = (r, (p1, w1))"
  shows "prefix (trace w) (trace w1)"
    and "prefix (issued w w1) [''add '' @ map char_of (py_str (unicode_printable w) v) @ ''\<newline>'']"
    and "r = Inr u \<Longrightarrow>
           issued w w1 = [''add '' @ map char_of (py_str (unicode_printable w) v) @ ''\<newline>''] \<and>
           socket_attr p1 \<noteq> None"
proof -
  let ?c = "lit ''add '' @ py_str (unicode_printable w) v"
  have c: "map char_of (?c @ [10]) = ''add '' @ map char_of (py_str (unicode_printable w) v) @ ''\<newline>''"
    by (simp add: char_of_lit char_of_newline)
  have a: "add_path v (p, w) = discard (send_socket_command ?c) (p, w)"
    by (simp add: add_path_def then_do_def format_field_def)
  obtain r0 where e: "send_socket_command ?c (p, w) = (r0, (p1, w1))"
    and r: "r = map_sum id (\<lambda>_. ()) r0"
    using assms unfolding a discard_alt by (metis prod.collapse fst_conv snd_conv)
  from send_socket_command_effect(1)[OF e] show "prefix (trace w) (trace w1)" .
  from send_socket_command_effect(2)[OF e] c
  show "prefix (issued w w1) [''add '' @ map char_of (py_str (unicode_printable w) v) @ ''\<newline>'']"
    by simp
  assume "r = Inr u"
  with r obtain t where "r0 = Inr t" by (cases r0) simp_all
  from send_socket_command_effect(3)[OF e this] c
  show "issued w w1 = [''add '' @ map char_of (py_str (unicode_printable w) v) @ ''\<newline>''] \<and>
        socket_attr p1 \<noteq> None"
    by simp
qed

lemma CmusOCPAudioService_play_unfold:
  "CmusOCPAudioService_play (s, w) =
     (case add_path (PList (tracks s)) (player s, w) of
        (Inl e, (p1, w1)) \<Rightarrow> (Inl e, (s\<lparr>player := p1\<rparr>, w1))
      | (Inr u, (p1, w1)) \<Rightarrow>
          (case play (p1, w1) of (r, (p2, w2)) \<Rightarrow> (r, (s\<lparr>player := p2\<rparr>, w2))))"
  by (simp add: CmusOCPAudioService_play_def then_do_def in_player_def get_tracks_def
      split: prod.splits sum.splits)

lemma OVOSCmusService_play_unfold:
  "OVOSCmusService_play (s, w) =
     (case add_path (PList (tracks s)) (player s, log (Hook ''ocp_start'') w) of
        (Inl e, (p1, w1)) \<Rightarrow> (Inl e, (s\<lparr>player := p1\<rparr>, w1))
      | (Inr u, (p1, w1)) \<Rightarrow>
          (case play (p1, w1) of (r, (p2, w2)) \<Rightarrow> (r, (s\<lparr>player := p2\<rparr>, w2))))"
  by (simp add: OVOSCmusService_play_def then_do_def in_player_def get_tracks_def hook_def
      split: prod.splits sum.splits)

text \<open>What both backends do from the world \<open>w0\<close> in which \<open>add_path\<close> starts.\<close>

lemma play_sequence:
  assumes "add_path v (p, w0) = (r1, (p1, w1))"
    and "st = (case r1 of Inl e \<Rightarrow> (Inl e, (p1, w1)) | Inr u \<Rightarrow> play (p1, w1))"
  shows "prefix (trace w0) (trace (snd (snd st)))"
    and "prefix (issued w0 (snd (snd st)))
           [''add '' @ map char_of (py_str (unicode_printable w0) v) @ ''\<newline>'', ''player-play\<newline>'']"
    and "fst st = Inr () \<Longrightarrow>
           issued w0 (snd (snd st)) =
           [''add '' @ map char_of (py_str (unicode_printable w0) v) @ ''\<newline>'', ''player-play\<newline>'']"
proof -
  let ?a = "''add '' @ map char_of (py_str (unicode_printable w0) v) @ ''\<newline>''"
  note a = add_path_effect[OF assms(1)]
  have "prefix (trace w0) (trace (snd (snd st))) \<and>
        prefix (issued w0 (snd (snd st))) [?a, ''player-play\<newline>''] \<and>
        (fst st = Inr () \<longrightarrow> issued w0 (snd (snd st)) = [?a, ''player-play\<newline>''])"
  proof (cases r1)
    case (Inl e)
    with assms(2) have "st = (Inl e, (p1, w1))" by simp
    moreover have "prefix (issued w0 w1) [?a, ''player-play\<newline>'']"
      by (rule prefix_order.trans[OF a(2)]) simp
    ultimately show ?thesis using a(1) by simp
  next
    case (Inr u)
    with assms(2) have s: "st = play (p1, w1)" by simp
    from a(3)[OF Inr] have i: "issued w0 w1 = [?a]" and c: "socket_attr p1 \<noteq> None"
      by simp_all
    from play_effect[OF c, of w1] s
    have p: "prefix (trace w1) (trace (snd (snd st)))"
      "issued w1 (snd (snd st)) = [''player-play\<newline>'']"
      by simp_all
    from issued_trans[OF a(1) p(1)] i p(2)
    have "issued w0 (snd (snd st)) = [?a, ''player-play\<newline>'']" by simp
    moreover from a(1) p(1) have "prefix (trace w0) (trace (snd (snd st)))" by auto
    ultimately show ?thesis by simp
  qed
  then show "prefix (trace w0) (trace (snd (snd st)))"
    and "prefix (issued w0 (snd (snd st))) [?a, ''player-play\<newline>'']"
    and "fst st = Inr () \<Longrightarrow> issued w0 (snd (snd st)) = [?a, ''player-play\<newline>'']"
    by blast+
qed

lemma CmusOCPAudioService_play_issued:
  "prefix (issued w (snd (snd (CmusOCPAudioService_play (s, w)))))
     [''add '' @ map char_of (py_str (unicode_printable w) (PList (tracks s))) @ ''\<newline>'',
      ''player-play\<newline>''] \<and>
   (fst (CmusOCPAudioService_play (s, w)) = Inr () \<longrightarrow>
    issued w (snd (snd (CmusOCPAudioService_play (s, w)))) =
     [''add '' @ map char_of (py_str (unicode_printable w) (PList (tracks s))) @ ''\<newline>'',
      ''player-play\<newline>''])"
proof -
  obtain r1 p1 w1 where a: "add_path (PList (tracks s)) (player s, w) = (r1, (p1, w1))"
    by (metis prod.collapse)
  define st where "st = (case r1 of Inl e \<Rightarrow> (Inl e, (p1, w1)) | Inr u \<Rightarrow> play (p1, w1))"
  have "fst (CmusOCPAudioService_play (s, w)) = fst st"
    "snd (snd (CmusOCPAudioService_play (s, w))) = snd (snd st)"
    using a by (auto simp: CmusOCPAudioService_play_unfold st_def split: sum.splits prod.splits)
  with play_sequence(2,3)[OF a st_def] show ?thesis by simp
qed

lemma OVOSCmusService_play_issued:
  "prefix (issued w (snd (snd (OVOSCmusService_play (s, w)))))
     [''add '' @ map char_of (py_str (unicode_printable w) (PList (tracks s))) @ ''\<newline>'',
      ''player-play\<newline>''] \<and>
   (fst (OVOSCmusService_play (s, w)) = Inr () \<longrightarrow>
    issued w (snd (snd (OVOSCmusService_play (s, w)))) =
     [''add '' @ map char_of (py_str (unicode_printable w) (PList (tracks s))) @ ''\<newline>'',
      ''player-play\<newline>''])"
proof -
  let ?w0 = "log (Hook ''ocp_start'') w"
  obtain r1 p1 w1 where a: "add_path (PList (tracks s)) (player s, ?w0) = (r1, (p1, w1))"
    by (metis prod.collapse)
  define st where "st = (case r1 of Inl e \<Rightarrow> (Inl e, (p1, w1)) | Inr u \<Rightarrow> play (p1, w1))"
  have e: "fst (OVOSCmusService_play (s, w)) = fst st"
    "snd (snd (OVOSCmusService_play (s, w))) = snd (snd st)"
    using a by (auto simp: OVOSCmusService_play_unfold st_def split: sum.splits prod.splits)
  from play_sequence(1)[OF a st_def] obtain ev where
    "trace (snd (snd st)) = trace w @ [Hook ''ocp_start''] @ ev"
    by (auto simp: prefix_def log_def)
  then have "issued w (snd (snd st)) = issued ?w0 (snd (snd st))"
    by (simp add: issued_def log_def)
  moreover have "unicode_printable ?w0 = unicode_printable w" by (simp add: log_def)
  ultimately show ?thesis using play_sequence(2,3)[OF a st_def] e by simp
qed


lemma add_path_non_ascii:
  assumes "\<not> (\<forall>c \<in> set (py_str (unicode_printable w) v). c < 128)"
  shows "(\<forall>u. fst (add_path v (p, w)) \<noteq> Inr u) \<and>
         issued w (snd (snd (add_path v (p, w)))) = [] \<and>
         (\<forall>fd st. get_open_socket (p, w) = (Inr fd, st) \<longrightarrow>
            fst (add_path v (p, w)) = Inl UnicodeEncodeError)"
proof -
  let ?c = "lit ''add '' @ py_str (unicode_printable w) v"
  have e: "encode_ascii (?c @ [10]) = Inl UnicodeEncodeError"
    using assms by (auto simp: encode_ascii_def)
  have a: "add_path v (p, w) = discard (send_socket_command ?c) (p, w)"
    by (simp add: add_path_def then_do_def format_field_def)
  obtain r0 p0 w0 where g: "get_open_socket (p, w) = (r0, (p0, w0))"
    by (metis prod.collapse)
  from get_open_socket_trace[OF g] obtain ev where
    ev: "trace w0 = trace w @ ev" "commands_sent ev = []"
    by blast
  have s: "send_socket_command ?c (p, w) =
        (case r0 of Inl x \<Rightarrow> Inl x | Inr fd \<Rightarrow> Inl UnicodeEncodeError, (p0, w0))"
    using g e by (simp add: send_socket_command_unfold split: sum.splits)
  show ?thesis
    unfolding a discard_alt s using ev g
    by (auto simp: issued_def split: sum.splits)
qed

lemma CmusOCPAudioService_play_non_ascii:
  assumes "\<not> (\<forall>c \<in> set (py_str (unicode_printable w) (PList (tracks s))). c < 128)"
  shows "fst (CmusOCPAudioService_play (s, w)) \<noteq> Inr () \<and>
         issued w (snd (snd (CmusOCPAudioService_play (s, w)))) = [] \<and>
         (\<forall>fd st. get_open_socket (player s, w) = (Inr fd, st) \<longrightarrow>
            fst (CmusOCPAudioService_play (s, w)) = Inl UnicodeEncodeError)"
proof -
  obtain r1 p1 w1 where a: "add_path (PList (tracks s)) (player s, w) = (r1, (p1, w1))"
    by (metis prod.collapse)
  from add_path_non_ascii[OF assms, of "player s"] a
  have n: "\<forall>u. r1 \<noteq> Inr u" "issued w w1 = []"
    "\<forall>fd st. get_open_socket (player s, w) = (Inr fd, st) \<longrightarrow> r1 = Inl UnicodeEncodeError"
    by simp_all
  from n(1) obtain e where "r1 = Inl e" by (cases r1) auto
  with a n show ?thesis
    by (simp add: CmusOCPAudioService_play_unfold)
qed

lemma OVOSCmusService_play_non_ascii:
  assumes "\<not> (\<forall>c \<in> set (py_str (unicode_printable w) (PList (tracks s))). c < 128)"
  shows "fst (OVOSCmusService_play (s, w)) \<noteq> Inr () \<and>
         issued w (snd (snd (OVOSCmusService_play (s, w)))) = [] \<and>
         (\<forall>fd st. get_open_socket (player s, log (Hook ''ocp_start'') w) = (Inr fd, st) \<longrightarrow>
            fst (OVOSCmusService_play (s, w)) = Inl UnicodeEncodeError)"
proof -
  let ?w0 = "log (Hook ''ocp_start'') w"
  have u: "unicode_printable ?w0 = unicode_printable w" by (simp add: log_def)
  obtain r1 p1 w1 where a: "add_path (PList (tracks s)) (player s, ?w0) = (r1, (p1, w1))"
    by (metis prod.collapse)
  from add_path_non_ascii[of ?w0 "PList (tracks s)" "player s"] assms a u
  have n: "\<forall>u. r1 \<noteq> Inr u" "issued ?w0 w1 = []"
    "\<forall>fd st. get_open_socket (player s, ?w0) = (Inr fd, st) \<longrightarrow> r1 = Inl UnicodeEncodeError"
    by simp_all
  from add_path_effect(1)[OF a] obtain ev where "trace w1 = trace w @ [Hook ''ocp_start''] @ ev"
    by (auto simp: prefix_def log_def)
  then have "issued w w1 = issued ?w0 w1"
    by (simp add: issued_def log_def)
  with n(2) have i: "issued w w1 = []" by simp
  from n(1) obtain e where "r1 = Inl e" by (cases r1) auto
  with a n i show ?thesis
    by (simp add: OVOSCmusService_play_unfold)
qed

text \<open>
  C6, as amended. Whenever \<open>play\<close> of either backend returns without an exception,
  the commands handed to the socket during the call are exactly two: first one \<open>add\<close>
  whose argument is the formatted list of all queued tracks, then one \<open>player-play\<close>.
  When that formatted list has a code point from 128 on, \<open>play\<close> does not return
  normally and hands neither command to the socket; the exception is
  \<open>UnicodeEncodeError\<close> whenever the socket is obtained.
\<close>

theorem play_add_then_play:
  fixes s :: service and v :: ovos_service
  shows
  "(fst (CmusOCPAudioService_play (s, w)) = Inr () \<longrightarrow>
      issued w (snd (snd (CmusOCPAudioService_play (s, w)))) =
        [''add '' @ map char_of (py_str (unicode_printable w) (PList (tracks s))) @ ''\<newline>'',
         ''player-play\<newline>'']) \<and>
   (\<not> (\<forall>c \<in> set (py_str (unicode_printable w) (PList (tracks s))). c < 128) \<longrightarrow>
      fst (CmusOCPAudioService_play (s, w)) \<noteq> Inr () \<and>
      issued w (snd (snd (CmusOCPAudioService_play (s, w)))) = [] \<and>
      (\<forall>fd st. get_open_socket (player s, w) = (Inr fd, st) \<longrightarrow>
         fst (CmusOCPAudioService_play (s, w)) = Inl UnicodeEncodeError)) \<and>
   (fst (OVOSCmusService_play (v, w)) = Inr () \<longrightarrow>
      issued w (snd (snd (OVOSCmusService_play (v, w)))) =
        [''add '' @ map char_of (py_str (unicode_printable w) (PList (tracks v))) @ ''\<newline>'',
         ''player-play\<newline>'']) \<and>
   (\<not> (\<forall>c \<in> set (py_str (unicode_printable w) (PList (tracks v))). c < 128) \<longrightarrow>
      fst (OVOSCmusService_play (v, w)) \<noteq> Inr () \<and>
      issued w (snd (snd (OVOSCmusService_play (v, w)))) = [] \<and>
      (\<forall>fd st. get_open_socket (player v, log (Hook ''ocp_start'') w) = (Inr fd, st) \<longrightarrow>
         fst (OVOSCmusService_play (v, w)) = Inl UnicodeEncodeError))"
  using CmusOCPAudioService_play_issued[of w s] OVOSCmusService_play_issued[of w v]
    CmusOCPAudioService_play_non_ascii[of w s] OVOSCmusService_play_non_ascii[of w v]
  by blast

lemma two_tracks_str:
  "py_str pr (PList [PStr (lit ''a.mp3''), PStr (lit ''b.mp3'')]) = lit ''['a.mp3', 'b.mp3']''"
  by (simp add: py_str_def repr_str_def repr_quote_def repr_char_def lit_def)

lemma sample_get_open_socket_at:
  "get_open_socket
     (fresh_player, (sample_world (lit ''/run/user/1000/cmus-socket'') reply)\<lparr>trace := t\<rparr>) =
     (Inr 0, (\<lparr>socket_attr = Some 0\<rparr>,
              (sample_world (lit ''/run/user/1000/cmus-socket'') reply)
                \<lparr>next_socket := 1,
                 trace := t @ [Create 0, Connect 0 (lit ''/run/user/1000/cmus-socket'') True]\<rparr>))"
  by (simp add: get_open_socket_fresh fresh_player_def socket_path_unfold sample_world_def
      first_existing_result lit_def del: first_existing.simps)

lemma sample_exchange_at:
  assumes "\<forall>x \<in> set (lit c). x < 128"
  shows "send_socket_command (lit c)
     (fresh_player, (sample_world (lit ''/run/user/1000/cmus-socket'') reply)\<lparr>trace := t\<rparr>) =
     (decode_utf8 (take 2048 reply),
      (\<lparr>socket_attr = Some 0\<rparr>,
       (sample_world (lit ''/run/user/1000/cmus-socket'') reply)
         \<lparr>next_socket := 1,
          trace := t @ [Create 0, Connect 0 (lit ''/run/user/1000/cmus-socket'') True,
                        Send 0 (c @ ''\<newline>''), Recv 0 2048]\<rparr>))"
proof -
  have "encode_ascii (lit c @ [10]) = Inr (c @ ''\<newline>'')"
    using assms by (simp add: encode_ascii_def char_of_newline char_of_lit)
  then show ?thesis
    by (simp add: send_socket_command_unfold sample_get_open_socket_at)
       (simp add: sample_world_def)
qed

lemma sample_play_two_tracks:
  "fst (OVOSCmusService_play
     (add_list [PStr (lit ''a.mp3''), PStr (lit ''b.mp3'')] (OVOSCmusService [] (lit ''cmus'')),
      sample_world (lit ''/run/user/1000/cmus-socket'') [])) = Inr ()"
proof -
  let ?W = "sample_world (lit ''/run/user/1000/cmus-socket'') []"
  let ?S = "add_list [PStr (lit ''a.mp3''), PStr (lit ''b.mp3'')] (OVOSCmusService [] (lit ''cmus''))"
  have a: "\<forall>x \<in> set (lit ''add ['a.mp3', 'b.mp3']''). x < 128"
    by (simp add: lit_def)
  have l: "lit ''add '' @ lit ''['a.mp3', 'b.mp3']'' = lit ''add ['a.mp3', 'b.mp3']''"
    by (simp add: lit_def)
  have h: "log (Hook ''ocp_start'') ?W = ?W\<lparr>trace := [Hook ''ocp_start'']\<rparr>"
    by (simp add: log_def sample_world_def)
  have s: "player ?S = fresh_player" "tracks ?S = [PStr (lit ''a.mp3''), PStr (lit ''b.mp3'')]"
    by (simp_all add: add_list_def OVOSCmusService_def fresh_player_def)
  have d: "decode_utf8 (take 2048 []) = Inr []"
    by (simp add: decode_utf8_def)
  have 1: "add_path (PList [PStr (lit ''a.mp3''), PStr (lit ''b.mp3'')])
             (fresh_player, ?W\<lparr>trace := [Hook ''ocp_start'']\<rparr>) =
           (Inr (),
            (\<lparr>socket_attr = Some 0\<rparr>,
             ?W\<lparr>next_socket := 1,
                trace := [Hook ''ocp_start''] @
                         [Create 0, Connect 0 (lit ''/run/user/1000/cmus-socket'') True,
                          Send 0 (''add ['a.mp3', 'b.mp3']'' @ ''\<newline>''), Recv 0 2048]\<rparr>))"
    using sample_exchange_at[OF a, where reply = "[]" and t = "[Hook ''ocp_start'']"]
    by (simp add: add_path_def format_field_def then_do_def discard_alt two_tracks_str l
        decode_utf8_def)
  have 2: "fst (play (\<lparr>socket_attr = Some 0\<rparr>,
             ?W\<lparr>next_socket := 1,
                trace := [Hook ''ocp_start''] @
                         [Create 0, Connect 0 (lit ''/run/user/1000/cmus-socket'') True,
                          Send 0 (''add ['a.mp3', 'b.mp3']'' @ ''\<newline>''), Recv 0 2048]\<rparr>)) = Inr ()"
    using exchange_cached[where p = "\<lparr>socket_attr = Some 0\<rparr>" and s = 0 and c = "''player-play''"
      and reply = "[]" and w = "?W\<lparr>next_socket := 1,
                trace := [Hook ''ocp_start''] @
                         [Create 0, Connect 0 (lit ''/run/user/1000/cmus-socket'') True,
                          Send 0 (''add ['a.mp3', 'b.mp3']'' @ ''\<newline>''), Recv 0 2048]\<rparr>"]
    by (simp add: play_def discard_alt ascii_lit_play sample_world_def decode_utf8_def)
  show ?thesis
    unfolding OVOSCmusService_play_unfold h s 1 using 2
    by (auto split: prod.splits)
qed

text \<open>Two tracks queued with \<open>add_list\<close> on the older backend, then \<open>play\<close>.\<close>

theorem play_add_then_play_witness:
  "issued (sample_world (lit ''/run/user/1000/cmus-socket'') [])
     (snd (snd (OVOSCmusService_play
        (add_list [PStr (lit ''a.mp3''), PStr (lit ''b.mp3'')] (OVOSCmusService [] (lit ''cmus'')),
         sample_world (lit ''/run/user/1000/cmus-socket'') [])))) =
     [''add ['a.mp3', 'b.mp3']\<newline>'', ''player-play\<newline>'']"
proof -
  have t: "tracks (add_list [PStr (lit ''a.mp3''), PStr (lit ''b.mp3'')] (OVOSCmusService [] (lit ''cmus''))) =
           [PStr (lit ''a.mp3''), PStr (lit ''b.mp3'')]"
    by (simp add: add_list_def OVOSCmusService_def)
  from play_add_then_play[THEN conjunct2, THEN conjunct2, THEN conjunct1, rule_format,
         OF sample_play_two_tracks]
  show ?thesis
    by (simp add: t two_tracks_str char_of_lit)
qed

text \<open>
  The claim as it stands fails on a queue with the one track \<open>\<eacute>.mp3\<close>: the \<open>add\<close>
  command cannot be encoded, \<open>play\<close> raises, and neither command is sent.
\<close>

theorem play_non_ascii_counterexample:
  "fst (CmusOCPAudioService_play
     ((CmusOCPAudioService [])\<lparr>tracks := [PStr (233 # lit ''.mp3'')]\<rparr>,
      sample_world (lit ''/run/user/1000/cmus-socket'') [])) = Inl UnicodeEncodeError \<and>
   issued (sample_world (lit ''/run/user/1000/cmus-socket'') [])
     (snd (snd (CmusOCPAudioService_play
        ((CmusOCPAudioService [])\<lparr>tracks := [PStr (233 # lit ''.mp3'')]\<rparr>,
         sample_world (lit ''/run/user/1000/cmus-socket'') [])))) = []"
proof -
  have p: "unicode_printable (sample_world (lit ''/run/user/1000/cmus-socket'') []) 233"
    by (simp add: sample_world_def)
  have e: "encode_ascii (lit ''add '' @
             py_str (unicode_printable (sample_world (lit ''/run/user/1000/cmus-socket'') []))
               (PList [PStr (233 # lit ''.mp3'')]) @ [10]) = Inl UnicodeEncodeError"
    using p by (simp add: encode_ascii_def py_str_def repr_str_def repr_quote_def repr_char_def lit_def)
  have f: "player ((CmusOCPAudioService [])\<lparr>tracks := [PStr (233 # lit ''.mp3'')]\<rparr>) = fresh_player"
    by (simp add: CmusOCPAudioService_def fresh_player_def)
  have a: "add_path (PList [PStr (233 # lit ''.mp3'')])
             (fresh_player, sample_world (lit ''/run/user/1000/cmus-socket'') []) =
           (Inl UnicodeEncodeError,
            (\<lparr>socket_attr = Some 0\<rparr>,
              (sample_world (lit ''/run/user/1000/cmus-socket'') [])
                \<lparr>next_socket := 1,
                 trace := [Create 0, Connect 0 (lit ''/run/user/1000/cmus-socket'') True]\<rparr>))"
    by (simp add: add_path_def format_field_def then_do_def discard_alt
        send_socket_command_unfold sample_get_open_socket e)
  have t: "trace (sample_world (lit ''/run/user/1000/cmus-socket'') []) = []"
    by (simp add: sample_world_def)
  show ?thesis
    by (simp add: CmusOCPAudioService_play_unfold f a issued_def t)
qed


subsection \<open>The argument of \<open>add\<close>\<close>

lemma length_hex: "length (hex k v) = k"
  by (induction k arbitrary: v) simp_all

lemma repr_char_nonempty: "1 \<le> length (repr_char pr q ch)"
  by (simp add: repr_char_def length_hex)

lemma length_repr_body: "length s \<le> length (concat (map (repr_char pr q) s))"
proof (induction s)
  case Nil
  then show ?case by simp
next
  case (Cons a s)
  with repr_char_nonempty[of pr q a] show ?case by simp
qed

lemma length_repr_str: "length s + 2 \<le> length (repr_str pr s)"
  using length_repr_body[of s pr "repr_quote s"] by (simp add: repr_str_def)

lemma length_str_join: "x \<in> set xs \<Longrightarrow> length x \<le> length (str_join sep xs)"
  by (induction sep xs rule: str_join.induct) auto

lemma repr_str_plain:
  assumes "\<forall>c \<in> set s. 32 \<le> c \<and> c < 127 \<and> c \<noteq> 39 \<and> c \<noteq> 92"
  shows "repr_str pr s = 39 # s @ [39]"
proof -
  from assms have q: "repr_quote s = 39" by (auto simp: repr_quote_def)
  from assms have "concat (map (repr_char pr 39) s) = s"
    by (induction s) (auto simp: repr_char_def)
  with q show ?thesis by (simp add: repr_str_def)
qed

lemma char_of_quote: "char_of (39::nat) = CHR 0x27"
  by code_simp

lemma py_str_string_list:
  "py_str pr (PList (map PStr names)) =
     lit ''['' @ str_join (lit '', '') (map (repr_str pr) names) @ lit '']''"
  by (simp add: py_str_def comp_def)

lemma list_repr_not_a_name:
  assumes "n \<in> set names"
  shows "py_str pr (PList (map PStr names)) \<noteq> n"
proof -
  from assms have "repr_str pr n \<in> set (map (repr_str pr) names)" by simp
  from length_str_join[OF this, of "lit '', ''"] length_repr_str[of n pr]
  have "length n < length (py_str pr (PList (map PStr names)))"
    by (simp add: py_str_string_list lit_def)
  then show ?thesis by auto
qed

text \<open>
  C9. With a queue of path strings \<open>names\<close>, the commands \<open>play\<close> of either backend
  hands to the socket begin with one \<open>add\<close> whose argument is the text Python prints
  for the whole list: an opening bracket, the \<open>repr\<close> of each path (in quotes)
  separated by a comma and a space, and a closing bracket. Nothing else can come before
  it, only \<open>player-play\<close> can follow, and both are there when \<open>play\<close> returns. That
  argument is none of the paths themselves.
\<close>

theorem add_command_list_repr:
  fixes s :: service and v :: ovos_service
  shows
  "(tracks s = map PStr names \<longrightarrow>
      prefix (issued w (snd (snd (CmusOCPAudioService_play (s, w)))))
        [''add ['' @ map char_of (str_join (lit '', '') (map (repr_str (unicode_printable w)) names))
           @ '']\<newline>'',
         ''player-play\<newline>''] \<and>
      (fst (CmusOCPAudioService_play (s, w)) = Inr () \<longrightarrow>
         issued w (snd (snd (CmusOCPAudioService_play (s, w)))) =
           [''add ['' @ map char_of (str_join (lit '', '') (map (repr_str (unicode_printable w)) names))
              @ '']\<newline>'',
            ''player-play\<newline>'']) \<and>
      (\<forall>n \<in> set names. py_str (unicode_printable w) (PList (tracks s)) \<noteq> n)) \<and>
   (tracks v = map PStr names \<longrightarrow>
      prefix (issued w (snd (snd (OVOSCmusService_play (v, w)))))
        [''add ['' @ map char_of (str_join (lit '', '') (map (repr_str (unicode_printable w)) names))
           @ '']\<newline>'',
         ''player-play\<newline>''] \<and>
      (fst (OVOSCmusService_play (v, w)) = Inr () \<longrightarrow>
         issued w (snd (snd (OVOSCmusService_play (v, w)))) =
           [''add ['' @ map char_of (str_join (lit '', '') (map (repr_str (unicode_printable w)) names))
              @ '']\<newline>'',
            ''player-play\<newline>'']) \<and>
      (\<forall>n \<in> set names. py_str (unicode_printable w) (PList (tracks v)) \<noteq> n))"
proof -
  show ?thesis
  proof (intro conjI impI ballI)
    assume t: "tracks s = map PStr names"
    from CmusOCPAudioService_play_issued[of w s]
    show "prefix (issued w (snd (snd (CmusOCPAudioService_play (s, w)))))
        [''add ['' @ map char_of (str_join (lit '', '') (map (repr_str (unicode_printable w)) names))
           @ '']\<newline>'',
         ''player-play\<newline>'']"
      by (simp add: t py_str_string_list char_of_lit)
    { assume "fst (CmusOCPAudioService_play (s, w)) = Inr ()"
      with CmusOCPAudioService_play_issued[of w s]
      show "issued w (snd (snd (CmusOCPAudioService_play (s, w)))) =
           [''add ['' @ map char_of (str_join (lit '', '') (map (repr_str (unicode_printable w)) names))
              @ '']\<newline>'',
            ''player-play\<newline>'']"
        by (simp add: t py_str_string_list char_of_lit) }
    { fix n assume "n \<in> set names"
      from list_repr_not_a_name[OF this]
      show "py_str (unicode_printable w) (PList (tracks s)) \<noteq> n"
        by (simp add: t) }
  next
    assume t: "tracks v = map PStr names"
    from OVOSCmusService_play_issued[of w v]
    show "prefix (issued w (snd (snd (OVOSCmusService_play (v, w)))))
        [''add ['' @ map char_of (str_join (lit '', '') (map (repr_str (unicode_printable w)) names))
           @ '']\<newline>'',
         ''player-play\<newline>'']"
      by (simp add: t py_str_string_list char_of_lit)
    { assume "fst (OVOSCmusService_play (v, w)) = Inr ()"
      with OVOSCmusService_play_issued[of w v]
      show "issued w (snd (snd (OVOSCmusService_play (v, w)))) =
           [''add ['' @ map char_of (str_join (lit '', '') (map (repr_str (unicode_printable w)) names))
              @ '']\<newline>'',
            ''player-play\<newline>'']"
        by (simp add: t py_str_string_list char_of_lit) }
    { fix n assume "n \<in> set names"
      from list_repr_not_a_name[OF this]
      show "py_str (unicode_printable w) (PList (tracks v)) \<noteq> n"
        by (simp add: t) }
  qed
qed

lemma sample_play_two_tracks_new:
  "fst (CmusOCPAudioService_play
     ((CmusOCPAudioService [])\<lparr>tracks := map PStr [lit ''a.mp3'', lit ''b.mp3'']\<rparr>,
      sample_world (lit ''/run/user/1000/cmus-socket'') [])) = Inr ()"
proof -
  let ?W = "sample_world (lit ''/run/user/1000/cmus-socket'') []"
  let ?S = "(CmusOCPAudioService [])\<lparr>tracks := map PStr [lit ''a.mp3'', lit ''b.mp3'']\<rparr>"
  have a: "\<forall>x \<in> set (lit ''add ['a.mp3', 'b.mp3']''). x < 128"
    by (simp add: lit_def)
  have l: "lit ''add '' @ lit ''['a.mp3', 'b.mp3']'' = lit ''add ['a.mp3', 'b.mp3']''"
    by (simp add: lit_def)
  have s: "player ?S = fresh_player" "tracks ?S = [PStr (lit ''a.mp3''), PStr (lit ''b.mp3'')]"
    by (simp_all add: CmusOCPAudioService_def fresh_player_def)
  have 1: "add_path (PList [PStr (lit ''a.mp3''), PStr (lit ''b.mp3'')]) (fresh_player, ?W) =
           (Inr (),
            (\<lparr>socket_attr = Some 0\<rparr>,
             ?W\<lparr>next_socket := 1,
                trace := [Create 0, Connect 0 (lit ''/run/user/1000/cmus-socket'') True,
                          Send 0 (''add ['a.mp3', 'b.mp3']'' @ ''\<newline>''), Recv 0 2048]\<rparr>))"
    using sample_exchange[OF a, where reply = "[]"]
    by (simp add: add_path_def format_field_def then_do_def discard_alt two_tracks_str l
        decode_utf8_def)
  have 2: "fst (play (\<lparr>socket_attr = Some 0\<rparr>,
             ?W\<lparr>next_socket := 1,
                trace := [Create 0, Connect 0 (lit ''/run/user/1000/cmus-socket'') True,
                          Send 0 (''add ['a.mp3', 'b.mp3']'' @ ''\<newline>''), Recv 0 2048]\<rparr>)) = Inr ()"
    using exchange_cached[where p = "\<lparr>socket_attr = Some 0\<rparr>" and s = 0 and c = "''player-play''"
      and reply = "[]" and w = "?W\<lparr>next_socket := 1,
                trace := [Create 0, Connect 0 (lit ''/run/user/1000/cmus-socket'') True,
                          Send 0 (''add ['a.mp3', 'b.mp3']'' @ ''\<newline>''), Recv 0 2048]\<rparr>"]
    by (simp add: play_def discard_alt ascii_lit_play sample_world_def decode_utf8_def)
  show ?thesis
    unfolding CmusOCPAudioService_play_unfold s 1 using 2
    by (auto split: prod.splits)
qed

text \<open>The queue \<open>['a.mp3', 'b.mp3']\<close> on the newer backend.\<close>

theorem add_command_list_repr_witness:
  "issued (sample_world (lit ''/run/user/1000/cmus-socket'') [])
     (snd (snd (CmusOCPAudioService_play
        ((CmusOCPAudioService [])\<lparr>tracks := map PStr [lit ''a.mp3'', lit ''b.mp3'']\<rparr>,
         sample_world (lit ''/run/user/1000/cmus-socket'') [])))) =
     [''add ['a.mp3', 'b.mp3']\<newline>'', ''player-play\<newline>''] \<and>
   py_str (unicode_printable (sample_world (lit ''/run/user/1000/cmus-socket'') []))
     (PList (tracks ((CmusOCPAudioService [])\<lparr>tracks := map PStr [lit ''a.mp3'', lit ''b.mp3'']\<rparr>)))
     \<noteq> lit ''a.mp3''"
proof -
  have t: "tracks ((CmusOCPAudioService [])\<lparr>tracks := map PStr [lit ''a.mp3'', lit ''b.mp3'']\<rparr>) =
           map PStr [lit ''a.mp3'', lit ''b.mp3'']"
    by simp
  have p: "\<forall>c \<in> set (lit ''a.mp3''). 32 \<le> c \<and> c < 127 \<and> c \<noteq> 39 \<and> c \<noteq> 92"
    "\<forall>c \<in> set (lit ''b.mp3''). 32 \<le> c \<and> c < 127 \<and> c \<noteq> 39 \<and> c \<noteq> 92"
    by (simp_all add: lit_def)
  have r: "\<And>pr. map char_of (repr_str pr (lit ''a.mp3'')) = CHR 0x27 # ''a.mp3'' @ [CHR 0x27]"
    "\<And>pr. map char_of (repr_str pr (lit ''b.mp3'')) = CHR 0x27 # ''b.mp3'' @ [CHR 0x27]"
    by (simp_all add: repr_str_plain[OF p(1)] repr_str_plain[OF p(2)] char_of_quote char_of_lit)
  note c = add_command_list_repr[THEN conjunct1, rule_format, OF t]
  from c[THEN conjunct2, THEN conjunct1, rule_format, OF sample_play_two_tracks_new]
       c[THEN conjunct2, THEN conjunct2, rule_format, of "lit ''a.mp3''"]
  show ?thesis
    by (simp add: r char_of_lit)
qed


section \<open>One connection\<close>

lemma connections_append: "connections (xs @ ys) = connections xs @ connections ys"
  by (simp add: connections_def)

lemma on_socket_not_established: "on_socket s e \<Longrightarrow> \<not> established e"
  by (cases e) simp_all

lemma connections_on_socket: "\<forall>e \<in> set ev. on_socket s e \<Longrightarrow> connections ev = []"
  by (auto simp: connections_def filter_empty_conv on_socket_not_established)

lemma step_cached:
  assumes "socket_attr p = Some s"
  shows "fst (snd (send_socket_command c (p, w))) = p \<and>
         (\<exists>ev. trace (snd (snd (send_socket_command c (p, w)))) = trace w @ ev \<and>
               (\<forall>e \<in> set ev. on_socket s e))"
  using assms
  by (auto simp: send_socket_command_unfold get_open_socket_cached
      split: sum.splits option.splits)

lemma step_fresh:
  assumes "socket_attr p = None" and "send_socket_command c (p, w) = (r, (p1, w1))"
  shows "(socket_attr p1 = None \<and> connections (trace w1) = connections (trace w) \<and> (\<forall>t. r \<noteq> Inr t)) \<or>
         (\<exists>path. socket_attr p1 = Some (next_socket w) \<and>
            connections (trace w1) = connections (trace w) @ [Connect (next_socket w) path True])"
proof -
  from assms(2) have "case get_open_socket (p, w) of
      (Inl e, st) \<Rightarrow> r = Inl e \<and> (p1, w1) = st
    | (Inr s, (p0, w0)) \<Rightarrow> p1 = p0 \<and> connections (trace w1) = connections (trace w0)"
    by (auto simp: send_socket_command_unfold connections_def
        split: prod.splits sum.splits option.splits if_splits)
  then show ?thesis
    using assms(1)
    by (auto simp: get_open_socket_fresh[OF assms(1)] Let_def connections_def
        split: sum.splits if_splits)
qed

lemma held_step: "held st \<Longrightarrow> held (snd (send_socket_command c st))"
proof -
  assume h: "held st"
  obtain p w where st: "st = (p, w)" by (cases st)
  obtain r p1 w1 where e: "send_socket_command c (p, w) = (r, (p1, w1))"
    by (metis prod.collapse)
  show ?thesis
  proof (cases "socket_attr p")
    case None
    with h st have "connections (trace w) = []" by (simp add: held_def)
    with step_fresh[OF None e] st e show ?thesis
      by (auto simp: held_def)
  next
    case (Some s)
    from step_cached[OF Some, of c w] e obtain ev where
      "p1 = p" "trace w1 = trace w @ ev" "\<forall>e \<in> set ev. on_socket s e"
      by auto
    with h st e Some show ?thesis
      by (simp add: held_def connections_append connections_on_socket)
  qed
qed

lemma held_run: "held st \<Longrightarrow> held (run_commands cs st)"
  by (induction cs arbitrary: st) (simp_all add: held_step)

lemma run_cached:
  assumes "socket_attr p = Some s"
  shows "fst (run_commands cs (p, w)) = p \<and>
         (\<exists>ev. trace (snd (run_commands cs (p, w))) = trace w @ ev \<and>
               (\<forall>e \<in> set ev. on_socket s e))"
proof (induction cs arbitrary: w)
  case Nil
  then show ?case by simp
next
  case (Cons c cs)
  obtain w1 where e: "snd (send_socket_command c (p, w)) = (p, w1)"
    using step_cached[OF assms, of c w] by (metis prod.collapse)
  from step_cached[OF assms, of c w] e obtain ev1 where
    1: "trace w1 = trace w @ ev1" "\<forall>e \<in> set ev1. on_socket s e"
    by auto
  from Cons.IH[of w1] obtain ev2 where
    2: "fst (run_commands cs (p, w1)) = p"
       "trace (snd (run_commands cs (p, w1))) = trace w1 @ ev2" "\<forall>e \<in> set ev2. on_socket s e"
    by auto
  from e 1 2 show ?case
    by (auto intro!: exI[of _ "ev1 @ ev2"])
qed


text \<open>
  C7. A player that has a socket gets that same socket from \<open>get_open_socket\<close> with
  nothing created and nothing connected, and whatever commands follow, the player keeps
  it and every call they make is a \<open>send\<close> or a \<open>recv\<close> on it. The first command that
  succeeds on a player without a socket establishes the connection and caches it. So
  however many commands are issued, and whether they fail or not, at most one
  connection is ever established.
\<close>

theorem one_connection:
  "(socket_attr p = Some s \<longrightarrow>
      get_open_socket (p, w) = (Inr s, (p, w)) \<and>
      fst (run_commands cs (p, w)) = p \<and>
      take (length (trace w)) (trace (snd (run_commands cs (p, w)))) = trace w \<and>
      (\<forall>e \<in> set (drop (length (trace w)) (trace (snd (run_commands cs (p, w))))). on_socket s e)) \<and>
   (socket_attr p = None \<and> send_socket_command c (p, w) = (Inr r, (p1, w1)) \<longrightarrow>
      socket_attr p1 = Some (next_socket w) \<and>
      (\<exists>path. connections (trace w1) =
                 connections (trace w) @ [Connect (next_socket w) path True])) \<and>
   (held (p, w) \<longrightarrow>
      held (run_commands cs (p, w)) \<and>
      length (connections (trace (snd (run_commands cs (p, w))))) \<le> 1)"
proof (intro conjI impI)
  assume a: "socket_attr p = Some s"
  then show "get_open_socket (p, w) = (Inr s, (p, w))"
    by (rule get_open_socket_cached)
  from run_cached[OF a, of cs w] obtain ev where
    ev: "fst (run_commands cs (p, w)) = p"
        "trace (snd (run_commands cs (p, w))) = trace w @ ev" "\<forall>e \<in> set ev. on_socket s e"
    by auto
  from ev(1) show "fst (run_commands cs (p, w)) = p" .
  from ev(2) show "take (length (trace w)) (trace (snd (run_commands cs (p, w)))) = trace w"
    by simp
  from ev(2,3)
  show "\<forall>e \<in> set (drop (length (trace w)) (trace (snd (run_commands cs (p, w))))). on_socket s e"
    by simp
next
  assume a: "socket_attr p = None \<and> send_socket_command c (p, w) = (Inr r, (p1, w1))"
  with step_fresh[of p c w "Inr r" p1 w1]
  show "socket_attr p1 = Some (next_socket w)"
    and "\<exists>path. connections (trace w1) =
                 connections (trace w) @ [Connect (next_socket w) path True]"
    by auto
next
  assume h: "held (p, w)"
  from held_run[OF h] show "held (run_commands cs (p, w))" .
  from held_run[OF h, of cs]
  show "length (connections (trace (snd (run_commands cs (p, w))))) \<le> 1"
    by (auto simp: held_def split: option.splits)
qed

text \<open>
  Two commands on a player that starts without a socket: one connection, and both
  exchanges on the socket it gave.
\<close>

theorem one_connection_witness:
  "held (run_commands [lit ''status'', lit ''player-pause'']
     (fresh_player, sample_world (lit ''/run/user/1000/cmus-socket'') [])) \<and>
   trace (snd (run_commands [lit ''status'', lit ''player-pause'']
     (fresh_player, sample_world (lit ''/run/user/1000/cmus-socket'') []))) =
     [Create 0, Connect 0 (lit ''/run/user/1000/cmus-socket'') True,
      Send 0 ''status\<newline>'', Recv 0 2048, Send 0 ''player-pause\<newline>'', Recv 0 2048]"
proof -
  have h: "held (fresh_player, sample_world (lit ''/run/user/1000/cmus-socket'') [])"
    by (simp add: held_def fresh_player_def sample_world_def connections_def)
  have t: "trace (snd (run_commands [lit ''status'', lit ''player-pause'']
     (fresh_player, sample_world (lit ''/run/user/1000/cmus-socket'') []))) =
     [Create 0, Connect 0 (lit ''/run/user/1000/cmus-socket'') True,
      Send 0 ''status\<newline>'', Recv 0 2048, Send 0 ''player-pause\<newline>'', Recv 0 2048]"
  proof -
    let ?W1 = "(sample_world (lit ''/run/user/1000/cmus-socket'') [])
         \<lparr>next_socket := 1,
          trace := [Create 0, Connect 0 (lit ''/run/user/1000/cmus-socket'') True,
                    Send 0 (''status'' @ ''\<newline>''), Recv 0 2048]\<rparr>"
    have 1: "snd (send_socket_command (lit ''status'')
        (fresh_player, sample_world (lit ''/run/user/1000/cmus-socket'') [])) =
        (\<lparr>socket_attr = Some 0\<rparr>, ?W1)"
      by (simp add: sample_exchange[OF ascii_lit_status])
    have 2: "trace (snd (snd (send_socket_command (lit ''player-pause'')
        (\<lparr>socket_attr = Some 0\<rparr>, ?W1)))) =
        [Create 0, Connect 0 (lit ''/run/user/1000/cmus-socket'') True,
         Send 0 ''status\<newline>'', Recv 0 2048, Send 0 ''player-pause\<newline>'', Recv 0 2048]"
      using exchange_cached[where p = "\<lparr>socket_attr = Some 0\<rparr>" and s = 0
          and c = "''player-pause''" and reply = "[]" and w = ?W1]
      by (simp add: ascii_lit_pause sample_world_def)
    from 2 show ?thesis
      by (simp add: 1)
  qed
  from one_connection[THEN conjunct2, THEN conjunct2, rule_format, OF h] t
  show ?thesis by blast
qed


section \<open>What the factory builds\<close>

lemma select_services_items:
  assumes "distinct (map fst backends)"
    and "\<forall>(b, ent) \<in> set backends. map_of ent (lit ''type'') \<noteq> None"
    and "set items \<subseteq> set backends"
  shows "select_services backends (map fst items) =
           Inr (filter (\<lambda>(b, ent). recognized ent) items)"
  using assms(3)
proof (induction items)
  case Nil
  then show ?case by simp
next
  case (Cons it items)
  obtain b ent where it: "it = (b, ent)" by (cases it)
  with Cons.prems have m: "(b, ent) \<in> set backends" by simp
  with assms(1) have l: "map_of backends b = Some ent" by simp
  from m assms(2) obtain t where t: "map_of ent (lit ''type'') = Some t" by auto
  have r: "recognized ent \<longleftrightarrow>
        t \<in> set [PStr (lit ''cmus''), PStr (lit ''ovos_cmus'')] \<and>
        truthy (dict_get ent (lit ''active'') (PBool False))"
    using t by (auto simp: recognized_def dict_get_def split: option.splits)
  from Cons.prems have "set items \<subseteq> set backends" by simp
  from Cons.IH[OF this] it l t r show ?case
    by (simp add: dict_item_def)
qed

text \<open>
  C8, as amended. For a configuration whose backend entries all have a \<open>type\<close>, the
  factory returns one instance for each entry that has one of the two types and a
  true active flag, named after the entry's key and holding the entry, in the order of
  the configuration, and nothing else. An entry without an active flag is not among
  them.
\<close>

theorem load_service_filters:
  assumes "backends = dict_get base_config (lit ''backends'') []"
    and "distinct (map fst backends)"
    and "\<forall>(b, ent) \<in> set backends. map_of ent (lit ''type'') \<noteq> None"
  shows "load_service base_config =
           Inr (map (\<lambda>(b, ent). OVOSCmusService ent b)
                  (filter (\<lambda>(b, ent). recognized ent) backends)) \<and>
         (\<forall>(b, ent) \<in> set backends. map_of ent (lit ''active'') = None \<longrightarrow> \<not> recognized ent)"
proof -
  have "(\<lambda>s. OVOSCmusService (snd s) (fst s)) = (\<lambda>(b, ent). OVOSCmusService ent b)"
    by (simp add: fun_eq_iff)
  with select_services_items[OF assms(2,3), of backends] assms(1)
  show ?thesis
    by (auto simp: load_service_def Let_def recognized_def)
qed

text \<open>
  Four entries: a recognized one, one of another type, one without an active flag, and
  one whose active flag is the number 1.
\<close>

theorem load_service_filters_witness:
  "load_service
     [(lit ''backends'',
       [(lit ''a'', [(lit ''type'', PStr (lit ''cmus'')), (lit ''active'', PBool True)]),
        (lit ''b'', [(lit ''type'', PStr (lit ''vlc'')), (lit ''active'', PBool True)]),
        (lit ''c'', [(lit ''type'', PStr (lit ''ovos_cmus''))]),
        (lit ''d'', [(lit ''type'', PStr (lit ''ovos_cmus'')), (lit ''active'', PInt 1)])])] =
   Inr [OVOSCmusService [(lit ''type'', PStr (lit ''cmus'')), (lit ''active'', PBool True)] (lit ''a''),
        OVOSCmusService [(lit ''type'', PStr (lit ''ovos_cmus'')), (lit ''active'', PInt 1)] (lit ''d'')]"
proof -
  let ?bk = "[(lit ''a'', [(lit ''type'', PStr (lit ''cmus'')), (lit ''active'', PBool True)]),
        (lit ''b'', [(lit ''type'', PStr (lit ''vlc'')), (lit ''active'', PBool True)]),
        (lit ''c'', [(lit ''type'', PStr (lit ''ovos_cmus''))]),
        (lit ''d'', [(lit ''type'', PStr (lit ''ovos_cmus'')), (lit ''active'', PInt 1)])]"
  have 1: "?bk = dict_get [(lit ''backends'', ?bk)] (lit ''backends'') []"
    by (simp add: dict_get_def)
  have 2: "distinct (map fst ?bk)"
    by (simp add: lit_def)
  have 3: "\<forall>(b, ent) \<in> set ?bk. map_of ent (lit ''type'') \<noteq> None"
    by simp
  have 4: "filter (\<lambda>(b, ent). recognized ent) ?bk =
     [(lit ''a'', [(lit ''type'', PStr (lit ''cmus'')), (lit ''active'', PBool True)]),
      (lit ''d'', [(lit ''type'', PStr (lit ''ovos_cmus'')), (lit ''active'', PInt 1)])]"
    by (simp add: recognized_def lit_def)
  from load_service_filters[OF 1 2 3, THEN conjunct1] show ?thesis
    unfolding 4 by simp
qed

text \<open>
  The claim as it stands fails on a configuration with an entry that has no \<open>type\<close>:
  the lookup raises \<open>KeyError\<close> and no instance is made, not even for the recognized
  entry before it.
\<close>

theorem load_service_missing_type_counterexample:
  "recognized [(lit ''type'', PStr (lit ''cmus'')), (lit ''active'', PBool True)] \<and>
   load_service
     [(lit ''backends'',
       [(lit ''a'', [(lit ''type'', PStr (lit ''cmus'')), (lit ''active'', PBool True)]),
        (lit ''b'', [(lit ''active'', PBool True)])])] = Inl (KeyError (lit ''type''))"
  by (simp add: recognized_def load_service_def dict_get_def dict_item_def lit_def)

end
